theory Spec2Isabelle
  imports Complex_Main
begin

section \<open>The relational store\<close>

text \<open>
  The tables the authentication code reads and writes, with the columns its queries name.
  Timestamps are milliseconds on one time line (the value of a JavaScript \<open>Date\<close>);
  a nullable column is an \<open>option\<close>. SQL Server compares identifiers without regard to
  case, so \<open>au.is_active\<close> and \<open>IS_ACTIVE\<close> are one column. The field prefixes are the
  table aliases of the queries (\<open>au\<close>, \<open>ur\<close>, \<open>r\<close>, \<open>rp\<close>, \<open>p\<close>).

  The queries of \<open>AuthService\<close> and \<open>middleware/auth.ts\<close> name three columns that the
  schema script does not declare: \<open>au.full_name\<close>, \<open>p.is_active\<close> and
  \<open>r.inactivity_timeout_minutes\<close>. The rows carry them as the queries read them; of a
  role's inactivity policy the session check reads \<open>inactivity_timeout_minutes\<close> and
  nothing else. \<open>IS_LOCKED\<close> is read and written by \<open>UserModel\<close> only.
\<close>

record AdminUsers_row =
  au_id :: int
  au_username :: string
  au_email :: string
  au_full_name :: string
  au_password_hash :: string
  au_is_active :: bool
  au_is_locked :: bool
  au_failed_login_attempts :: int
  au_locked_until_ts :: "int option"
  au_last_login_ts :: "int option"

record UserRoles_row =
  ur_user_id :: int
  ur_role_id :: int
  ur_is_active :: bool

record Roles_row =
  r_id :: int
  r_role_name :: string
  r_description :: "string option"
  r_is_active :: bool
  r_inactivity_timeout_minutes :: int

record RolePermissions_row =
  rp_role_id :: int
  rp_permission_id :: int
  rp_is_granted :: bool

record Permissions_row =
  p_id :: int
  p_permission_name :: string
  p_description :: "string option"
  p_is_active :: bool

record db =
  AdminUsers :: "AdminUsers_row list"
  UserRoles :: "UserRoles_row list"
  Roles :: "Roles_row list"
  RolePermissions :: "RolePermissions_row list"
  Permissions :: "Permissions_row list"

datatype error = StorageError

text \<open>
  \<open>db.request().query(...)\<close> either throws or delivers its result; the flag says which.
\<close>

definition query :: "bool \<Rightarrow> 'a \<Rightarrow> error + 'a" where
  "query fails result = (if fails then Inl StorageError else Inr result)"

section \<open>The identity query\<close>

text \<open>
  \<open>LEFT JOIN t ON c\<close> for one left row: the rows of \<open>t\<close> that satisfy \<open>c\<close>, or a single
  NULL row when there is none. A condition over a NULL left row is not true, so NULL
  propagates down the chain of joins.
\<close>

definition LEFT_JOIN :: "'b list \<Rightarrow> ('b \<Rightarrow> bool) \<Rightarrow> 'b option list" where
  "LEFT_JOIN table on = (case filter on table of [] \<Rightarrow> [None] | ms \<Rightarrow> map Some ms)"

text \<open>
  A row of the record set. The selected columns \<open>role_id, role_name, role_description\<close>
  are the columns of \<open>r\<close> (all NULL together), and likewise for \<open>p\<close>.
\<close>

record row =
  row_au :: AdminUsers_row
  row_r :: "Roles_row option"
  row_p :: "Permissions_row option"

text \<open>
  The FROM clause shared by \<open>AuthService.authenticateUser\<close> and \<open>getUserById\<close>:

  \<^verbatim>\<open>FROM AdminUsers au
  LEFT JOIN UserRoles ur ON au.id = ur.user_id
  LEFT JOIN Roles r ON ur.role_id = r.id AND r.is_active = 1
  LEFT JOIN RolePermissions rp ON r.id = rp.role_id
  LEFT JOIN Permissions p ON rp.permission_id = p.id AND p.is_active = 1\<close>

  SQL leaves the order of the rows open; the model delivers them in table order.
\<close>

definition joined_rows :: "db \<Rightarrow> row list" where
  "joined_rows d =
     [\<lparr>row_au = au, row_r = r, row_p = p\<rparr>.
        au \<leftarrow> AdminUsers d,
        ur \<leftarrow> LEFT_JOIN (UserRoles d) (\<lambda>ur. au_id au = ur_user_id ur),
        r \<leftarrow> LEFT_JOIN (Roles d)
               (\<lambda>r. case ur of None \<Rightarrow> False
                              | Some ur \<Rightarrow> ur_role_id ur = r_id r \<and> r_is_active r),
        rp \<leftarrow> LEFT_JOIN (RolePermissions d)
               (\<lambda>rp. case r of None \<Rightarrow> False | Some r \<Rightarrow> r_id r = rp_role_id rp),
        p \<leftarrow> LEFT_JOIN (Permissions d)
               (\<lambda>p. case rp of None \<Rightarrow> False
                              | Some rp \<Rightarrow> rp_permission_id rp = p_id p \<and> p_is_active p)]"

text \<open>
  \<^verbatim>\<open>WHERE au.username = @username OR au.email = @username\<close>, with the comparison of
  strings taken as equality.
\<close>

definition login_query :: "db \<Rightarrow> string \<Rightarrow> row list" where
  "login_query d username =
     filter (\<lambda>w. au_username (row_au w) = username \<or> au_email (row_au w) = username)
       (joined_rows d)"

text \<open>\<^verbatim>\<open>WHERE au.id = @userId AND au.is_active = 1\<close>\<close>

definition getUserById_query :: "db \<Rightarrow> int \<Rightarrow> row list" where
  "getUserById_query d userId =
     filter (\<lambda>w. au_id (row_au w) = userId \<and> au_is_active (row_au w)) (joined_rows d)"

section \<open>Building the identity\<close>

record UserRole =
  UserRole_id :: int
  roleName :: string
  UserRole_description :: "string option"

record Permission =
  Permission_id :: int
  permissionName :: string
  Permission_description :: "string option"

record AuthUser =
  AuthUser_id :: int
  AuthUser_username :: string
  AuthUser_email :: string
  fullName :: string
  isActive :: bool
  lastLoginTs :: "int option"
  lockedUntilTs :: "int option"
  failedLoginAttempts :: int
  roles :: "UserRole list"
  permissions :: "Permission list"

text \<open>
  A JavaScript \<open>Map\<close> keeps its entries in insertion order: an association list.
  \<open>Map_set\<close> on a key that is present replaces the value in place.
\<close>

definition Map_has :: "('k \<times> 'v) list \<Rightarrow> 'k \<Rightarrow> bool" where
  "Map_has m k = (k \<in> set (map fst m))"

definition Map_set :: "('k \<times> 'v) list \<Rightarrow> 'k \<Rightarrow> 'v \<Rightarrow> ('k \<times> 'v) list" where
  "Map_set m k v =
     (if Map_has m k then map (\<lambda>(k', v'). if k' = k then (k', v) else (k', v')) m
      else m @ [(k, v)])"

definition Map_values :: "('k \<times> 'v) list \<Rightarrow> 'v list" where
  "Map_values m = map snd m"

text \<open>
  The body of the \<open>forEach\<close> in \<open>buildUserFromResults\<close>. \<open>row.role_id &&\<close> is false for
  NULL and for the number 0.
\<close>

definition add_role :: "(int \<times> UserRole) list \<Rightarrow> row \<Rightarrow> (int \<times> UserRole) list" where
  "add_role m w =
     (case row_r w of
        None \<Rightarrow> m
      | Some r \<Rightarrow>
          if r_id r \<noteq> 0 \<and> \<not> Map_has m (r_id r)
          then Map_set m (r_id r)
                 \<lparr>UserRole_id = r_id r, roleName = r_role_name r,
                  UserRole_description = r_description r\<rparr>
          else m)"

definition add_permission :: "(int \<times> Permission) list \<Rightarrow> row \<Rightarrow> (int \<times> Permission) list" where
  "add_permission m w =
     (case row_p w of
        None \<Rightarrow> m
      | Some p \<Rightarrow>
          if p_id p \<noteq> 0 \<and> \<not> Map_has m (p_id p)
          then Map_set m (p_id p)
                 \<lparr>Permission_id = p_id p, permissionName = p_permission_name p,
                  Permission_description = p_description p\<rparr>
          else m)"

text \<open>
  \<open>buildUserFromResults\<close> of \<open>middleware/auth.ts\<close>. On an empty record set \<open>results[0]\<close>
  is undefined and reading \<open>user.id\<close> throws: \<open>None\<close>.
\<close>

definition buildUserFromResults :: "row list \<Rightarrow> AuthUser option" where
  "buildUserFromResults results =
     (case results of
        [] \<Rightarrow> None
      | w0 # _ \<Rightarrow>
          let user = row_au w0;
              rolesMap = fold (\<lambda>w m. add_role m w) results [];
              permissionsMap = fold (\<lambda>w m. add_permission m w) results []
          in Some \<lparr>AuthUser_id = au_id user,
                   AuthUser_username = au_username user,
                   AuthUser_email = au_email user,
                   fullName = au_full_name user,
                   isActive = au_is_active user,
                   lastLoginTs = au_last_login_ts user,
                   lockedUntilTs = au_locked_until_ts user,
                   failedLoginAttempts = au_failed_login_attempts user,
                   roles = Map_values rolesMap,
                   permissions = Map_values permissionsMap\<rparr>)"

text \<open>
  \<open>AuthService.buildUserFromResults\<close> is a second copy of the same function, statement
  for statement.
\<close>

definition AuthService_buildUserFromResults :: "row list \<Rightarrow> AuthUser option" where
  "AuthService_buildUserFromResults results =
     (case results of
        [] \<Rightarrow> None
      | w0 # _ \<Rightarrow>
          let user = row_au w0;
              rolesMap = fold (\<lambda>w m. add_role m w) results [];
              permissionsMap = fold (\<lambda>w m. add_permission m w) results []
          in Some \<lparr>AuthUser_id = au_id user,
                   AuthUser_username = au_username user,
                   AuthUser_email = au_email user,
                   fullName = au_full_name user,
                   isActive = au_is_active user,
                   lastLoginTs = au_last_login_ts user,
                   lockedUntilTs = au_locked_until_ts user,
                   failedLoginAttempts = au_failed_login_attempts user,
                   roles = Map_values rolesMap,
                   permissions = Map_values permissionsMap\<rparr>)"

text \<open>
  \<open>getUserById\<close> of \<open>middleware/auth.ts\<close>: \<open>{ success: false }\<close> is \<open>None\<close>, also when the
  query or the construction throws (the \<open>catch\<close> branch).
\<close>

definition getUserById :: "bool \<Rightarrow> db \<Rightarrow> int \<Rightarrow> AuthUser option" where
  "getUserById fails d userId =
     (case query fails (getUserById_query d userId) of
        Inl _ \<Rightarrow> None
      | Inr recordset \<Rightarrow>
          if length recordset = 0 then None
          else buildUserFromResults recordset)"

section \<open>AuthService: login and lockout\<close>

text \<open>
  The process environment as the service reads it: \<open>None\<close> is a variable that is unset
  (or empty), \<open>Some n\<close> one set to the decimal integer \<open>n\<close>. \<open>bcrypt.compare\<close> is the
  hashing library's verification, taken as given.
\<close>

record env =
  env_MAX_LOGIN_ATTEMPTS :: "int option"
  env_LOCKOUT_TIME :: "int option"
  bcrypt_compare :: "string \<Rightarrow> string \<Rightarrow> bool"

text \<open>\<^verbatim>\<open>parseInt(process.env.MAX_LOGIN_ATTEMPTS || '5')\<close>\<close>

definition MAX_LOGIN_ATTEMPTS :: "env \<Rightarrow> int" where
  "MAX_LOGIN_ATTEMPTS e = (case env_MAX_LOGIN_ATTEMPTS e of None \<Rightarrow> 5 | Some n \<Rightarrow> n)"

text \<open>\<^verbatim>\<open>parseInt(process.env.LOCKOUT_TIME || '900000')\<close>, in milliseconds\<close>

definition LOCKOUT_TIME :: "env \<Rightarrow> int" where
  "LOCKOUT_TIME e = (case env_LOCKOUT_TIME e of None \<Rightarrow> 900000 | Some n \<Rightarrow> n)"

definition verifyPassword :: "env \<Rightarrow> string \<Rightarrow> string \<Rightarrow> bool" where
  "verifyPassword e password hash = bcrypt_compare e password hash"

text \<open>
  \<open>Math.ceil(a / b)\<close> on integers \<open>a\<close> and \<open>b > 0\<close>. The quotient of two integers below
  \<open>2^53\<close> is rounded by less than its distance to the next integer, so the floating-point
  result is the exact ceiling.
\<close>

definition Math_ceil_div :: "int \<Rightarrow> int \<Rightarrow> int" where
  "Math_ceil_div a b = - ((- a) div b)"

datatype message =
    Invalid_credentials      \<comment> \<open>\<open>'Invalid credentials'\<close>\<close>
  | Account_locked int       \<comment> \<open>\<open>`Account is locked. Try again in ${n} minutes.`\<close>\<close>
  | Account_disabled         \<comment> \<open>\<open>'Account is disabled'\<close>\<close>
  | Authentication_failed    \<comment> \<open>\<open>'Authentication failed'\<close>, from the \<open>catch\<close> branch\<close>

datatype login_result = Success AuthUser | Failure message

text \<open>
  The clock is read up to three times during one login, and the store stamps the row with
  its own \<open>GETDATE()\<close>: each reading is a value of its own.
\<close>

record login_clock =
  new_Date :: int        \<comment> \<open>\<open>new Date()\<close> of the lock check\<close>
  Date_now :: int        \<comment> \<open>\<open>Date.now()\<close> of the remaining-time computation\<close>
  lock_Date_now :: int   \<comment> \<open>\<open>Date.now()\<close> in \<open>handleFailedLogin\<close>\<close>
  GETDATE :: int         \<comment> \<open>\<open>GETDATE()\<close> of the update after a successful login\<close>

record login_faults =
  select_fails :: bool
  update_fails :: bool

definition handleFailedLogin :: "env \<Rightarrow> bool \<Rightarrow> int \<Rightarrow> db \<Rightarrow> int \<Rightarrow> int \<Rightarrow> error + db" where
  "handleFailedLogin e fails now d userId currentAttempts =
     (let newAttempts = currentAttempts + 1 in
      if newAttempts \<ge> MAX_LOGIN_ATTEMPTS e then
        let lockUntil = now + LOCKOUT_TIME e in
        query fails
          (d\<lparr>AdminUsers :=
               map (\<lambda>au. if au_id au = userId
                          then au\<lparr>au_failed_login_attempts := newAttempts,
                                  au_locked_until_ts := Some lockUntil\<rparr>
                          else au) (AdminUsers d)\<rparr>)
      else
        query fails
          (d\<lparr>AdminUsers :=
               map (\<lambda>au. if au_id au = userId
                          then au\<lparr>au_failed_login_attempts := newAttempts\<rparr>
                          else au) (AdminUsers d)\<rparr>))"

text \<open>
  \<open>AuthService.authenticateUser\<close>, returning its result and the store it leaves behind.
  Every exception inside the \<open>try\<close> ends in \<open>'Authentication failed'\<close>.
\<close>

definition authenticateUser ::
  "env \<Rightarrow> login_faults \<Rightarrow> login_clock \<Rightarrow> db \<Rightarrow> string \<Rightarrow> string \<Rightarrow> login_result \<times> db" where
  "authenticateUser e flt clk d username password =
     (case query (select_fails flt) (login_query d username) of
        Inl _ \<Rightarrow> (Failure Authentication_failed, d)
      | Inr recordset \<Rightarrow>
         (case recordset of
            [] \<Rightarrow> (Failure Invalid_credentials, d)
          | userData # _ \<Rightarrow>
              let u = row_au userData in
              if (case au_locked_until_ts u of None \<Rightarrow> False | Some l \<Rightarrow> new_Date clk < l)
              then
                (case au_locked_until_ts u of
                   None \<Rightarrow> (Failure Authentication_failed, d)
                 | Some l \<Rightarrow>
                     let lockTimeRemaining = Math_ceil_div (l - Date_now clk) (1000 * 60)
                     in (Failure (Account_locked lockTimeRemaining), d))
              else if \<not> au_is_active u then (Failure Account_disabled, d)
              else if \<not> verifyPassword e password (au_password_hash u) then
                (case handleFailedLogin e (update_fails flt) (lock_Date_now clk) d
                        (au_id u) (au_failed_login_attempts u) of
                   Inl _ \<Rightarrow> (Failure Authentication_failed, d)
                 | Inr d' \<Rightarrow> (Failure Invalid_credentials, d'))
              else
                (case query (update_fails flt)
                        (d\<lparr>AdminUsers :=
                             map (\<lambda>au. if au_id au = au_id u
                                        then au\<lparr>au_failed_login_attempts := 0,
                                                au_locked_until_ts := None,
                                                au_last_login_ts := Some (GETDATE clk)\<rparr>
                                        else au) (AdminUsers d)\<rparr>) of
                   Inl _ \<Rightarrow> (Failure Authentication_failed, d)
                 | Inr d' \<Rightarrow>
                     (case AuthService_buildUserFromResults recordset of
                        None \<Rightarrow> (Failure Authentication_failed, d')
                      | Some user \<Rightarrow> (Success user, d')))))"

text \<open>
  A client that submits one login after the other for the same identifier, each with its
  own clock readings and password, against a store that does not fail.
\<close>

definition no_faults :: login_faults where
  "no_faults = \<lparr>select_fails = False, update_fails = False\<rparr>"

fun consecutive_logins ::
  "env \<Rightarrow> db \<Rightarrow> string \<Rightarrow> (login_clock \<times> string) list \<Rightarrow> login_result list \<times> db" where
  "consecutive_logins e d username [] = ([], d)"
| "consecutive_logins e d username ((clk, password) # rest) =
     (case authenticateUser e no_faults clk d username password of
        (res, d') \<Rightarrow>
          (case consecutive_logins e d' username rest of
             (ress, d'') \<Rightarrow> (res # ress, d'')))"

section \<open>Session validation\<close>

text \<open>
  \<open>MIN\<close> over the rows of a query without \<open>GROUP BY\<close>: always one row, NULL when no row
  qualifies.
\<close>

definition SQL_MIN :: "int list \<Rightarrow> int option" where
  "SQL_MIN xs = (case xs of [] \<Rightarrow> None | x # ys \<Rightarrow> Some (fold min ys x))"

text \<open>
  \<^verbatim>\<open>SELECT MIN(r.inactivity_timeout_minutes) as min_timeout
  FROM AdminUsers au
  JOIN UserRoles ur ON au.id = ur.user_id
  JOIN Roles r ON ur.role_id = r.id
  WHERE au.id = @userId AND r.is_active = 1 AND r.inactivity_timeout_minutes > 0\<close>
\<close>

definition timeout_rows :: "db \<Rightarrow> int \<Rightarrow> int list" where
  "timeout_rows d userId =
     [r_inactivity_timeout_minutes r.
        au \<leftarrow> AdminUsers d,
        ur \<leftarrow> UserRoles d, au_id au = ur_user_id ur,
        r \<leftarrow> Roles d, ur_role_id ur = r_id r,
        au_id au = userId \<and> r_is_active r \<and> r_inactivity_timeout_minutes r > 0]"

definition timeout_query :: "db \<Rightarrow> int \<Rightarrow> int option list" where
  "timeout_query d userId = [SQL_MIN (timeout_rows d userId)]"

text \<open>\<open>getInactivityTimeout\<close> of \<open>middleware/auth.ts\<close>, in milliseconds; 0 is "no timeout".\<close>

definition getInactivityTimeout :: "bool \<Rightarrow> db \<Rightarrow> int \<Rightarrow> int" where
  "getInactivityTimeout fails d userId =
     (case query fails (timeout_query d userId) of
        Inl _ \<Rightarrow> 0
      | Inr recordset \<Rightarrow>
          let timeoutMinutes = (case recordset of [] \<Rightarrow> None | w # _ \<Rightarrow> w)
          in (case timeoutMinutes of
                None \<Rightarrow> 0
              | Some m \<Rightarrow> if m \<noteq> 0 then m * 60 * 1000 else 0))"

record session =
  session_userId :: "int option"
  session_lastActivity :: "int option"

datatype auth_message =
    Authentication_required             \<comment> \<open>\<open>'Authentication required'\<close>\<close>
  | Session_expired_due_to_inactivity   \<comment> \<open>\<open>'Session expired due to inactivity'\<close>\<close>
  | User_not_found_or_inactive          \<comment> \<open>\<open>'User not found or inactive'\<close>\<close>

datatype response = Next AuthUser | Status401 auth_message

record auth_clock =
  default_Date_now :: int   \<comment> \<open>\<open>req.session.lastActivity || Date.now()\<close>\<close>
  since_Date_now :: int     \<comment> \<open>\<open>Date.now() - lastActivity\<close>\<close>
  update_Date_now :: int    \<comment> \<open>\<open>req.session.lastActivity = Date.now()\<close>\<close>

record auth_faults =
  timeout_query_fails :: bool
  user_query_fails :: bool

text \<open>
  \<open>requireAuth\<close> of \<open>middleware/auth.ts\<close>: the response (\<open>Next user\<close> is \<open>req.user = user;
  next()\<close>) and the session afterwards, \<open>None\<close> once it is destroyed. \<open>!req.session.userId\<close>
  holds for an unset id and for 0; \<open>lastActivity || Date.now()\<close> takes the clock for an
  unset value and for 0. Both helpers catch their own exceptions, so the outer \<open>catch\<close> is
  never entered.
\<close>

definition requireAuth ::
  "auth_faults \<Rightarrow> auth_clock \<Rightarrow> db \<Rightarrow> session \<Rightarrow> response \<times> session option" where
  "requireAuth flt clk d s =
     (case session_userId s of
        None \<Rightarrow> (Status401 Authentication_required, Some s)
      | Some userId \<Rightarrow>
          if userId = 0 then (Status401 Authentication_required, Some s)
          else
            let inactivityTimeout = getInactivityTimeout (timeout_query_fails flt) d userId;
                lastActivity =
                  (case session_lastActivity s of
                     None \<Rightarrow> default_Date_now clk
                   | Some t \<Rightarrow> if t = 0 then default_Date_now clk else t);
                timeSinceActivity = since_Date_now clk - lastActivity
            in if inactivityTimeout > 0 \<and> timeSinceActivity > inactivityTimeout
               then (Status401 Session_expired_due_to_inactivity, None)
               else
                 let s' = s\<lparr>session_lastActivity := Some (update_Date_now clk)\<rparr>
                 in (case getUserById (user_query_fails flt) d userId of
                       None \<Rightarrow> (Status401 User_not_found_or_inactive, Some s')
                     | Some user \<Rightarrow> (Next user, Some s')))"

section \<open>UserModel and RoleService\<close>

text \<open>
  \<open>UserModel.unlockUser\<close> and \<open>UserModel.isUserLocked\<close> of \<open>models/User.ts\<close>.
  \<open>executeQuery\<close> rethrows a storage error, and neither function catches it.
\<close>

definition unlockUser :: "bool \<Rightarrow> db \<Rightarrow> int \<Rightarrow> error + db" where
  "unlockUser fails d userId =
     query fails
       (d\<lparr>AdminUsers :=
            map (\<lambda>au. if au_id au = userId
                       then au\<lparr>au_is_locked := False,
                               au_locked_until_ts := None,
                               au_failed_login_attempts := 0\<rparr>
                       else au) (AdminUsers d)\<rparr>)"

definition isUserLocked :: "bool \<Rightarrow> int \<Rightarrow> db \<Rightarrow> AdminUsers_row \<Rightarrow> error + (bool \<times> db)" where
  "isUserLocked fails now d user =
     (if \<not> au_is_locked user then Inr (False, d)
      else if (case au_locked_until_ts user of None \<Rightarrow> False | Some l \<Rightarrow> now > l) then
        (case unlockUser fails d (au_id user) of
           Inl err \<Rightarrow> Inl err
         | Inr d' \<Rightarrow> Inr (False, d'))
      else Inr (True, d))"

text \<open>\<open>UserModel.updateLastLogin\<close>, with \<open>now\<close> the store's \<open>GETDATE()\<close>.\<close>

definition updateLastLogin :: "bool \<Rightarrow> int \<Rightarrow> db \<Rightarrow> int \<Rightarrow> error + db" where
  "updateLastLogin fails now d userId =
     query fails
       (d\<lparr>AdminUsers :=
            map (\<lambda>au. if au_id au = userId
                       then au\<lparr>au_last_login_ts := Some now,
                               au_failed_login_attempts := 0,
                               au_is_locked := False,
                               au_locked_until_ts := None\<rparr>
                       else au) (AdminUsers d)\<rparr>)"

text \<open>
  \<open>UserModel.incrementFailedLogins\<close>: one UPDATE whose CASE expressions read the old
  counter. Its default lockout time is \<open>'3600000'\<close>.
\<close>

definition incrementFailedLogins :: "env \<Rightarrow> bool \<Rightarrow> int \<Rightarrow> db \<Rightarrow> int \<Rightarrow> error + db" where
  "incrementFailedLogins e fails now d userId =
     (let maxAttempts = (case env_MAX_LOGIN_ATTEMPTS e of None \<Rightarrow> 5 | Some n \<Rightarrow> n);
          lockoutTime = (case env_LOCKOUT_TIME e of None \<Rightarrow> 3600000 | Some n \<Rightarrow> n)
      in query fails
           (d\<lparr>AdminUsers :=
                map (\<lambda>au. if au_id au = userId
                           then au\<lparr>au_failed_login_attempts := au_failed_login_attempts au + 1,
                                   au_is_locked :=
                                     (if au_failed_login_attempts au + 1 \<ge> maxAttempts
                                      then True else au_is_locked au),
                                   au_locked_until_ts :=
                                     (if au_failed_login_attempts au + 1 \<ge> maxAttempts
                                      then Some (now + lockoutTime)
                                      else au_locked_until_ts au)\<rparr>
                           else au) (AdminUsers d)\<rparr>))"

text \<open>
  \<open>RoleService.removeRoleFromUser\<close>: the assignment is kept and marked inactive. The
  result is the \<open>success\<close> flag and the store afterwards.
\<close>

definition removeRoleFromUser :: "bool \<Rightarrow> db \<Rightarrow> int \<Rightarrow> int \<Rightarrow> bool \<times> db" where
  "removeRoleFromUser fails d roleId userId =
     (case query fails
             (d\<lparr>UserRoles :=
                  map (\<lambda>ur. if ur_role_id ur = roleId \<and> ur_user_id ur = userId
                             then ur\<lparr>ur_is_active := False\<rparr>
                             else ur) (UserRoles d)\<rparr>) of
        Inl _ \<Rightarrow> (False, d)
      | Inr d' \<Rightarrow> (True, d'))"

text \<open>
  \<open>UserModel.getUserPermissions\<close>: the same walk through the tables with the filters on
  the assignment and on the grant.

  \<^verbatim>\<open>SELECT DISTINCT p.PERMISSION_NAME
  FROM AdminUsers u
  INNER JOIN UserRoles ur ON u.ID = ur.USER_ID AND ur.IS_ACTIVE = 1
  INNER JOIN Roles r ON ur.ROLE_ID = r.ID AND r.IS_ACTIVE = 1
  INNER JOIN RolePermissions rp ON r.ID = rp.ROLE_ID AND rp.IS_GRANTED = 1
  INNER JOIN Permissions p ON rp.PERMISSION_ID = p.ID
  WHERE u.ID = @userId AND u.IS_ACTIVE = 1\<close>
\<close>

definition getUserPermissions :: "bool \<Rightarrow> db \<Rightarrow> int \<Rightarrow> error + string list" where
  "getUserPermissions fails d userId =
     query fails
       (remdups
          [p_permission_name p.
             u \<leftarrow> AdminUsers d,
             ur \<leftarrow> UserRoles d, au_id u = ur_user_id ur \<and> ur_is_active ur,
             r \<leftarrow> Roles d, ur_role_id ur = r_id r \<and> r_is_active r,
             rp \<leftarrow> RolePermissions d, r_id r = rp_role_id rp \<and> rp_is_granted rp,
             p \<leftarrow> Permissions d, rp_permission_id rp = p_id p,
             au_id u = userId \<and> au_is_active u])"

section \<open>Reading the record set\<close>

text \<open>
  The rows the joins produce for one row of \<open>AdminUsers\<close>, and \<open>userData\<close>, the user of
  the first row of the login record set.
\<close>

definition user_rows :: "db \<Rightarrow> AdminUsers_row \<Rightarrow> row list" where
  "user_rows d au =
     [\<lparr>row_au = au, row_r = r, row_p = p\<rparr>.
        ur \<leftarrow> LEFT_JOIN (UserRoles d) (\<lambda>ur. au_id au = ur_user_id ur),
        r \<leftarrow> LEFT_JOIN (Roles d)
               (\<lambda>r. case ur of None \<Rightarrow> False
                              | Some ur \<Rightarrow> ur_role_id ur = r_id r \<and> r_is_active r),
        rp \<leftarrow> LEFT_JOIN (RolePermissions d)
               (\<lambda>rp. case r of None \<Rightarrow> False | Some r \<Rightarrow> r_id r = rp_role_id rp),
        p \<leftarrow> LEFT_JOIN (Permissions d)
               (\<lambda>p. case rp of None \<Rightarrow> False
                              | Some rp \<Rightarrow> rp_permission_id rp = p_id p \<and> p_is_active p)]"

definition login_user :: "db \<Rightarrow> string \<Rightarrow> AdminUsers_row option" where
  "login_user d username =
     (case login_query d username of [] \<Rightarrow> None | userData # _ \<Rightarrow> Some (row_au userData))"

section \<open>A small school\<close>

text \<open>
  One user, \<open>alice\<close>, who is both Editor and Teacher. Both roles grant \<open>news.create\<close>, so
  that permission reaches her along two paths; only Teacher carries an inactivity
  timeout (30 days, in minutes).
\<close>

definition plain_compare :: "string \<Rightarrow> string \<Rightarrow> bool" where
  "plain_compare password hash = (hash = ''hash:'' @ password)"

definition example_env :: env where
  "example_env =
     \<lparr>env_MAX_LOGIN_ATTEMPTS = None, env_LOCKOUT_TIME = None, bcrypt_compare = plain_compare\<rparr>"

definition alice :: AdminUsers_row where
  "alice =
     \<lparr>au_id = 1, au_username = ''alice'', au_email = ''alice@school.example'',
      au_full_name = ''Alice'', au_password_hash = ''hash:secret'', au_is_active = True,
      au_is_locked = False, au_failed_login_attempts = 0, au_locked_until_ts = None,
      au_last_login_ts = None\<rparr>"

definition Editor :: Roles_row where
  "Editor =
     \<lparr>r_id = 1, r_role_name = ''Editor'', r_description = None, r_is_active = True,
      r_inactivity_timeout_minutes = 0\<rparr>"

definition Teacher :: Roles_row where
  "Teacher =
     \<lparr>r_id = 2, r_role_name = ''Teacher'', r_description = None, r_is_active = True,
      r_inactivity_timeout_minutes = 43200\<rparr>"

definition news_create :: Permissions_row where
  "news_create =
     \<lparr>p_id = 1, p_permission_name = ''news.create'', p_description = None,
      p_is_active = True\<rparr>"

definition news_publish :: Permissions_row where
  "news_publish =
     \<lparr>p_id = 2, p_permission_name = ''news.publish'', p_description = None,
      p_is_active = True\<rparr>"

definition example_db :: db where
  "example_db =
     \<lparr>AdminUsers = [alice],
      UserRoles =
        [\<lparr>ur_user_id = 1, ur_role_id = 1, ur_is_active = True\<rparr>,
         \<lparr>ur_user_id = 1, ur_role_id = 2, ur_is_active = True\<rparr>],
      Roles = [Editor, Teacher],
      RolePermissions =
        [\<lparr>rp_role_id = 1, rp_permission_id = 1, rp_is_granted = True\<rparr>,
         \<lparr>rp_role_id = 2, rp_permission_id = 1, rp_is_granted = True\<rparr>,
         \<lparr>rp_role_id = 2, rp_permission_id = 2, rp_is_granted = True\<rparr>],
      Permissions = [news_create, news_publish]\<rparr>"

text \<open>
  The same school where alice is Editor only and the one grant of the Editor role has
  been revoked (\<open>IS_GRANTED = 0\<close>).
\<close>

definition revoked_db :: db where
  "revoked_db =
     example_db
       \<lparr>UserRoles := [\<lparr>ur_user_id = 1, ur_role_id = 1, ur_is_active = True\<rparr>],
        RolePermissions :=
          [\<lparr>rp_role_id = 1, rp_permission_id = 1, rp_is_granted = False\<rparr>]\<rparr>"

text \<open>A login during which every clock reading shows the same instant.\<close>

definition clock_at :: "int \<Rightarrow> login_clock" where
  "clock_at t = \<lparr>new_Date = t, Date_now = t, lock_Date_now = t, GETDATE = t\<rparr>"

text \<open>Five logins with a wrong password, a second apart.\<close>

definition five_wrong :: "(login_clock \<times> string) list" where
  "five_wrong =
     [(clock_at 1000, ''guess1''), (clock_at 2000, ''guess2''), (clock_at 3000, ''guess3''),
      (clock_at 4000, ''guess4''), (clock_at 5000, ''guess5'')]"

text \<open>The school after those five logins: alice is locked until 905000.\<close>

definition locked_db :: db where
  "locked_db =
     example_db
       \<lparr>AdminUsers :=
          [alice\<lparr>au_failed_login_attempts := 5, au_locked_until_ts := Some 905000\<rparr>]\<rparr>"

text \<open>The school where alice has four failed logins and a lock that ran out at 500.\<close>

definition stale_db :: db where
  "stale_db =
     example_db
       \<lparr>AdminUsers :=
          [alice\<lparr>au_failed_login_attempts := 4, au_locked_until_ts := Some 500\<rparr>]\<rparr>"

text \<open>
  The school where alice has four failed logins counted by \<open>UserModel\<close>, and the row
  \<open>incrementFailedLogins\<close> makes of hers at the fifth, at time 1000.
\<close>

definition counted_db :: db where
  "counted_db = example_db\<lparr>AdminUsers := [alice\<lparr>au_failed_login_attempts := 4\<rparr>]\<rparr>"

definition flagged_alice :: AdminUsers_row where
  "flagged_alice =
     alice\<lparr>au_is_locked := True, au_failed_login_attempts := 5,
           au_locked_until_ts := Some 3601000\<rparr>"

text \<open>A session of alice, last active at 1000, and a request at one instant.\<close>

definition alice_session :: session where
  "alice_session = \<lparr>session_userId = Some 1, session_lastActivity = Some 1000\<rparr>"

definition request_at :: "int \<Rightarrow> auth_clock" where
  "request_at t = \<lparr>default_Date_now = t, since_Date_now = t, update_Date_now = t\<rparr>"

text \<open>
  The school after \<open>RoleService.removeRoleFromUser\<close> has taken the Teacher role from
  alice: the assignment stays in the table, marked inactive, and Editor is the one role
  she is left with.
\<close>

definition removed_db :: db where
  "removed_db =
     example_db
       \<lparr>UserRoles :=
          [\<lparr>ur_user_id = 1, ur_role_id = 1, ur_is_active = True\<rparr>,
           \<lparr>ur_user_id = 1, ur_role_id = 2, ur_is_active = False\<rparr>]\<rparr>"

text \<open>
  A deployment that sets both variables, to 3 attempts and 2 minutes, and the school
  where alice has two failed logins.
\<close>

definition configured_env :: env where
  "configured_env =
     \<lparr>env_MAX_LOGIN_ATTEMPTS = Some 3, env_LOCKOUT_TIME = Some 120000,
      bcrypt_compare = plain_compare\<rparr>"

definition twice_db :: db where
  "twice_db = example_db\<lparr>AdminUsers := [alice\<lparr>au_failed_login_attempts := 2\<rparr>]\<rparr>"

section \<open>The shape of the record set\<close>

lemma joined_rows_concat: "joined_rows d = concat (map (user_rows d) (AdminUsers d))"
  by (simp add: joined_rows_def user_rows_def [abs_def])

lemma LEFT_JOIN_nonempty: "LEFT_JOIN t on \<noteq> []"
  by (simp add: LEFT_JOIN_def split: list.splits)

lemma concat_map_nonempty:
  "xs \<noteq> [] \<Longrightarrow> (\<And>x. f x \<noteq> []) \<Longrightarrow> concat (map f xs) \<noteq> []"
  by (cases xs) auto

lemma user_rows_nonempty: "user_rows d au \<noteq> []"
  unfolding user_rows_def
  by (intro concat_map_nonempty LEFT_JOIN_nonempty) (simp add: LEFT_JOIN_nonempty)

lemma user_rows_au: "w \<in> set (user_rows d au) \<Longrightarrow> row_au w = au"
  by (auto simp: user_rows_def)

lemma filter_concat_map:
  assumes "\<And>x w. w \<in> set (f x) \<Longrightarrow> P w = Q x"
  shows "filter P (concat (map f xs)) = concat (map f (filter Q xs))"
proof (induction xs)
  case Nil
  show ?case by simp
next
  case (Cons x xs)
  have "filter P (f x) = (if Q x then f x else [])"
    using assms [of _ x] by (auto simp: filter_empty_conv intro: filter_True)
  with Cons show ?case by simp
qed

lemma login_query_concat:
  "login_query d username =
     concat (map (user_rows d)
       (filter (\<lambda>au. au_username au = username \<or> au_email au = username) (AdminUsers d)))"
  unfolding login_query_def joined_rows_concat
  by (rule filter_concat_map) (simp add: user_rows_au)

lemma getUserById_query_concat:
  "getUserById_query d userId =
     concat (map (user_rows d)
       (filter (\<lambda>au. au_id au = userId \<and> au_is_active au) (AdminUsers d)))"
  unfolding getUserById_query_def joined_rows_concat
  by (rule filter_concat_map) (simp add: user_rows_au)

lemma hd_concat_user_rows:
  assumes "concat (map (user_rows d) (u # us)) = w # ws"
  shows "row_au w = u"
proof -
  obtain w' ws' where r: "user_rows d u = w' # ws'"
    using user_rows_nonempty [of d u] by (cases "user_rows d u") auto
  with assms have "w = w'" by simp
  with r have "w \<in> set (user_rows d u)" by simp
  then show ?thesis by (rule user_rows_au)
qed

lemma find_as_filter:
  "find P xs = (case filter P xs of [] \<Rightarrow> None | x # _ \<Rightarrow> Some x)"
  by (induction xs) auto

text \<open>The user the login inspects is the first row of \<open>AdminUsers\<close> that matches.\<close>

lemma login_user_find:
  "login_user d username =
     find (\<lambda>au. au_username au = username \<or> au_email au = username) (AdminUsers d)"
proof (cases "filter (\<lambda>au. au_username au = username \<or> au_email au = username) (AdminUsers d)")
  case Nil
  then have "login_query d username = []"
    by (simp add: login_query_concat)
  moreover from Nil
  have "find (\<lambda>au. au_username au = username \<or> au_email au = username) (AdminUsers d) = None"
    by (simp add: find_as_filter)
  ultimately show ?thesis
    by (simp add: login_user_def)
next
  case (Cons u us)
  then have q: "login_query d username = concat (map (user_rows d) (u # us))"
    by (simp add: login_query_concat)
  moreover have "concat (map (user_rows d) (u # us)) \<noteq> []"
    using user_rows_nonempty [of d u] by simp
  ultimately have "login_query d username \<noteq> []"
    by simp
  then obtain w ws where ww: "login_query d username = w # ws"
    by (cases "login_query d username") simp_all
  with q have "row_au w = u"
    using hd_concat_user_rows [of d u us w ws] by simp
  moreover from Cons
  have "find (\<lambda>au. au_username au = username \<or> au_email au = username) (AdminUsers d) = Some u"
    by (simp add: find_as_filter)
  ultimately show ?thesis
    using ww by (simp add: login_user_def)
qed

section \<open>No identity lists a role or a permission twice\<close>

lemma add_role_keys_distinct:
  "distinct (map fst m) \<Longrightarrow> distinct (map fst (add_role m w))"
  by (auto simp: add_role_def Map_set_def Map_has_def split: option.splits)

lemma add_role_key_is_id:
  "\<forall>kv \<in> set m. UserRole_id (snd kv) = fst kv \<Longrightarrow>
   \<forall>kv \<in> set (add_role m w). UserRole_id (snd kv) = fst kv"
  by (auto simp: add_role_def Map_set_def Map_has_def split: option.splits)

lemma fold_add_role_inv:
  "distinct (map fst m) \<Longrightarrow> \<forall>kv \<in> set m. UserRole_id (snd kv) = fst kv \<Longrightarrow>
   distinct (map fst (fold (\<lambda>w m. add_role m w) ws m)) \<and>
   (\<forall>kv \<in> set (fold (\<lambda>w m. add_role m w) ws m). UserRole_id (snd kv) = fst kv)"
proof (induction ws arbitrary: m)
  case Nil
  then show ?case by simp
next
  case (Cons w ws)
  show ?case
    using Cons.IH [OF add_role_keys_distinct [OF Cons.prems(1)]
                      add_role_key_is_id [OF Cons.prems(2)]]
    by simp
qed

lemma values_ids_are_keys:
  "\<forall>kv \<in> set m. f (snd kv) = fst kv \<Longrightarrow> map f (Map_values m) = map fst m"
  by (induction m) (auto simp: Map_values_def)

lemma roles_distinct:
  "distinct (map UserRole_id (Map_values (fold (\<lambda>w m. add_role m w) ws [])))"
proof -
  let ?m = "fold (\<lambda>w m. add_role m w) ws []"
  have inv: "distinct (map fst ?m) \<and> (\<forall>kv \<in> set ?m. UserRole_id (snd kv) = fst kv)"
    by (rule fold_add_role_inv) simp_all
  then have "map UserRole_id (Map_values ?m) = map fst ?m"
    by (intro values_ids_are_keys) simp
  with inv show ?thesis by simp
qed

lemma add_permission_keys_distinct:
  "distinct (map fst m) \<Longrightarrow> distinct (map fst (add_permission m w))"
  by (auto simp: add_permission_def Map_set_def Map_has_def split: option.splits)

lemma add_permission_key_is_id:
  "\<forall>kv \<in> set m. Permission_id (snd kv) = fst kv \<Longrightarrow>
   \<forall>kv \<in> set (add_permission m w). Permission_id (snd kv) = fst kv"
  by (auto simp: add_permission_def Map_set_def Map_has_def split: option.splits)

lemma fold_add_permission_inv:
  "distinct (map fst m) \<Longrightarrow> \<forall>kv \<in> set m. Permission_id (snd kv) = fst kv \<Longrightarrow>
   distinct (map fst (fold (\<lambda>w m. add_permission m w) ws m)) \<and>
   (\<forall>kv \<in> set (fold (\<lambda>w m. add_permission m w) ws m). Permission_id (snd kv) = fst kv)"
proof (induction ws arbitrary: m)
  case Nil
  then show ?case by simp
next
  case (Cons w ws)
  show ?case
    using Cons.IH [OF add_permission_keys_distinct [OF Cons.prems(1)]
                      add_permission_key_is_id [OF Cons.prems(2)]]
    by simp
qed

lemma permissions_distinct:
  "distinct (map Permission_id (Map_values (fold (\<lambda>w m. add_permission m w) ws [])))"
proof -
  let ?m = "fold (\<lambda>w m. add_permission m w) ws []"
  have inv: "distinct (map fst ?m) \<and> (\<forall>kv \<in> set ?m. Permission_id (snd kv) = fst kv)"
    by (rule fold_add_permission_inv) simp_all
  then have "map Permission_id (Map_values ?m) = map fst ?m"
    by (intro values_ids_are_keys) simp
  with inv show ?thesis by simp
qed

lemma buildUserFromResults_distinct:
  "buildUserFromResults results = Some user \<Longrightarrow>
   distinct (map UserRole_id (roles user)) \<and> distinct (map Permission_id (permissions user))"
  using roles_distinct [of "w # ws" for w ws] permissions_distinct [of "w # ws" for w ws]
  by (auto simp: buildUserFromResults_def Let_def split: list.splits)

lemma AuthService_buildUserFromResults_distinct:
  "AuthService_buildUserFromResults results = Some user \<Longrightarrow>
   distinct (map UserRole_id (roles user)) \<and> distinct (map Permission_id (permissions user))"
  using roles_distinct [of "w # ws" for w ws] permissions_distinct [of "w # ws" for w ws]
  by (auto simp: AuthService_buildUserFromResults_def Let_def split: list.splits)

lemma getUserById_Some:
  "getUserById fails d userId = Some user \<Longrightarrow>
   buildUserFromResults (getUserById_query d userId) = Some user"
  by (auto simp: getUserById_def query_def split: if_splits)

lemma authenticateUser_Success:
  "fst (authenticateUser e flt clk d username password) = Success user \<Longrightarrow>
   AuthService_buildUserFromResults (login_query d username) = Some user"
  by (auto simp: authenticateUser_def query_def Let_def handleFailedLogin_def
           split: if_splits list.splits option.splits sum.splits)

text \<open>
  C9. The identity that \<open>getUserById\<close> resolves on a request, and the one a successful
  \<open>authenticateUser\<close> returns, list no role id twice and no permission id twice, however
  many rows of the record set carry the same role or permission.
\<close>

theorem identity_ids_distinct:
  assumes "getUserById fails d userId = Some user \<or>
           fst (authenticateUser e flt clk d username password) = Success user"
  shows "distinct (map UserRole_id (roles user)) \<and>
         distinct (map Permission_id (permissions user))"
  using assms
proof
  assume "getUserById fails d userId = Some user"
  then show ?thesis
    by (rule buildUserFromResults_distinct [OF getUserById_Some])
next
  assume "fst (authenticateUser e flt clk d username password) = Success user"
  then show ?thesis
    by (rule AuthService_buildUserFromResults_distinct [OF authenticateUser_Success])
qed

text \<open>
  In the small school the record set carries \<open>news.create\<close> twice, once for each role
  that grants it, and the identity lists it once.
\<close>

theorem identity_ids_distinct_witness:
  "map (\<lambda>w. map_option p_id (row_p w)) (getUserById_query example_db 1) =
     [Some 1, Some 1, Some 2] \<and>
   map_option (\<lambda>u. map Permission_id (permissions u)) (getUserById False example_db 1) =
     Some [1, 2] \<and>
   map_option (\<lambda>u. distinct (map UserRole_id (roles u)) \<and>
                    distinct (map Permission_id (permissions u)))
     (getUserById False example_db 1) = Some True"
proof -
  have "map (\<lambda>w. map_option p_id (row_p w)) (getUserById_query example_db 1) =
          [Some 1, Some 1, Some 2]"
    by code_simp
  moreover
  have "map_option (\<lambda>u. map Permission_id (permissions u)) (getUserById False example_db 1) =
          Some [1, 2]"
    by code_simp
  moreover
  have "getUserById False example_db 1 \<noteq> None"
    by code_simp
  then obtain user where h: "getUserById False example_db 1 = Some user"
    by blast
  have "distinct (map UserRole_id (roles user)) \<and>
        distinct (map Permission_id (permissions user))"
    using identity_ids_distinct [of False example_db 1 user] h by simp
  with h have "map_option (\<lambda>u. distinct (map UserRole_id (roles u)) \<and>
                    distinct (map Permission_id (permissions u)))
     (getUserById False example_db 1) = Some True"
    by simp
  ultimately show ?thesis by blast
qed

section \<open>Revoked grants and removed roles\<close>

text \<open>
  C1. Identity resolution is meant to follow only active assignments and granted
  permissions. The two queries of \<open>getUserById\<close> and \<open>authenticateUser\<close> test neither
  \<open>ur.is_active\<close> nor \<open>rp.is_granted\<close>: in the school where the only grant of
  \<open>news.create\<close> is revoked, both still put \<open>news.create\<close> into alice's identity, and
  after \<open>removeRoleFromUser\<close> has taken the Teacher role from her, \<open>getUserById\<close>
  still lists Teacher and \<open>news.publish\<close>. \<open>getUserPermissions\<close>, which applies both
  filters, lists neither.
\<close>

theorem revoked_grant_still_resolved:
  "map_option (\<lambda>u. map permissionName (permissions u)) (getUserById False revoked_db 1) =
     Some [''news.create''] \<and>
   (case fst (authenticateUser example_env no_faults (clock_at 1000) revoked_db
                ''alice'' ''secret'') of
      Success u \<Rightarrow> map permissionName (permissions u)
    | Failure _ \<Rightarrow> []) = [''news.create''] \<and>
   getUserPermissions False revoked_db 1 = Inr [] \<and>
   removeRoleFromUser False example_db 2 1 =
     (True, example_db
        \<lparr>UserRoles := [\<lparr>ur_user_id = 1, ur_role_id = 1, ur_is_active = True\<rparr>,
                       \<lparr>ur_user_id = 1, ur_role_id = 2, ur_is_active = False\<rparr>]\<rparr>) \<and>
   map_option (\<lambda>u. (map roleName (roles u), map permissionName (permissions u)))
     (getUserById False (snd (removeRoleFromUser False example_db 2 1)) 1) =
     Some ([''Editor'', ''Teacher''], [''news.create'', ''news.publish'']) \<and>
   getUserPermissions False (snd (removeRoleFromUser False example_db 2 1)) 1 =
     Inr [''news.create'']"
  by code_simp

section \<open>One login at a time\<close>

lemma find_map_preserved:
  assumes "\<And>x. P (f x) = P x"
  shows "find P (map f xs) = map_option f (find P xs)"
  by (induction xs) (simp_all add: assms)

lemma login_user_update:
  assumes "\<And>au. au_username (f au) = au_username au" "\<And>au. au_email (f au) = au_email au"
  shows "login_user (d\<lparr>AdminUsers := map f (AdminUsers d)\<rparr>) username =
         map_option f (login_user d username)"
  unfolding login_user_find
  by (simp add: find_map_preserved assms)

lemma login_user_Cons:
  "login_query d username = userData # rest \<Longrightarrow> login_user d username = Some (row_au userData)"
  by (simp add: login_user_def)

lemma login_user_SomeD:
  "login_user d username = Some u \<Longrightarrow>
   \<exists>userData rest. login_query d username = userData # rest \<and> row_au userData = u"
  by (auto simp: login_user_def split: list.splits)

lemma login_user_NoneD: "login_user d username = None \<Longrightarrow> login_query d username = []"
  by (auto simp: login_user_def split: list.splits)

lemma authenticateUser_no_user:
  assumes "\<not> select_fails flt" "login_user d username = None"
  shows "authenticateUser e flt clk d username password = (Failure Invalid_credentials, d)"
  using assms login_user_NoneD [of d username]
  by (simp add: authenticateUser_def query_def)

lemma authenticateUser_locked:
  assumes "\<not> select_fails flt" "login_user d username = Some u"
    "au_locked_until_ts u = Some l" "new_Date clk < l"
  shows "authenticateUser e flt clk d username password =
           (Failure (Account_locked (Math_ceil_div (l - Date_now clk) 60000)), d)"
proof -
  obtain userData rest where "login_query d username = userData # rest" "row_au userData = u"
    using login_user_SomeD [OF assms(2)] by blast
  with assms show ?thesis
    by (simp add: authenticateUser_def query_def Let_def)
qed

lemma authenticateUser_wrong_password:
  assumes "\<not> select_fails flt" "\<not> update_fails flt" "login_user d username = Some u"
    "\<not> (case au_locked_until_ts u of None \<Rightarrow> False | Some l \<Rightarrow> new_Date clk < l)"
    "au_is_active u" "\<not> bcrypt_compare e password (au_password_hash u)"
  shows "authenticateUser e flt clk d username password =
           (Failure Invalid_credentials,
            d\<lparr>AdminUsers :=
                map (\<lambda>au. if au_id au = au_id u
                           then au\<lparr>au_failed_login_attempts := au_failed_login_attempts u + 1,
                                   au_locked_until_ts :=
                                     (if MAX_LOGIN_ATTEMPTS e \<le> au_failed_login_attempts u + 1
                                      then Some (lock_Date_now clk + LOCKOUT_TIME e)
                                      else au_locked_until_ts au)\<rparr>
                           else au) (AdminUsers d)\<rparr>)"
proof -
  obtain userData rest where "login_query d username = userData # rest" "row_au userData = u"
    using login_user_SomeD [OF assms(3)] by blast
  with assms show ?thesis
    by (simp add: authenticateUser_def query_def Let_def handleFailedLogin_def verifyPassword_def
             cong: if_cong)
qed

lemma authenticateUser_right_password:
  assumes "\<not> select_fails flt" "\<not> update_fails flt"
    "login_query d username = userData # rest"
    "\<not> (case au_locked_until_ts (row_au userData) of None \<Rightarrow> False | Some l \<Rightarrow> new_Date clk < l)"
    "au_is_active (row_au userData)"
    "bcrypt_compare e password (au_password_hash (row_au userData))"
  shows "\<exists>user. AuthService_buildUserFromResults (userData # rest) = Some user \<and>
          authenticateUser e flt clk d username password =
           (Success user,
            d\<lparr>AdminUsers :=
                map (\<lambda>au. if au_id au = au_id (row_au userData)
                           then au\<lparr>au_failed_login_attempts := 0,
                                   au_locked_until_ts := None,
                                   au_last_login_ts := Some (GETDATE clk)\<rparr>
                           else au) (AdminUsers d)\<rparr>)"
  using assms
  by (simp add: authenticateUser_def query_def Let_def verifyPassword_def
        AuthService_buildUserFromResults_def)

section \<open>One login after the other\<close>

lemma consecutive_logins_append:
  "consecutive_logins e d username (as @ bs) =
     (case consecutive_logins e d username as of
        (r1, d1) \<Rightarrow>
          (case consecutive_logins e d1 username bs of (r2, d2) \<Rightarrow> (r1 @ r2, d2)))"
  by (induction as arbitrary: d) (auto split: prod.splits)

lemma wrong_logins_below_threshold:
  assumes "login_user d username = Some u" "au_is_active u"
    "\<forall>a \<in> set as.
       \<not> (case au_locked_until_ts u of None \<Rightarrow> False | Some l \<Rightarrow> new_Date (fst a) < l) \<and>
       \<not> bcrypt_compare e (snd a) (au_password_hash u)"
    "au_failed_login_attempts u + int (length as) < MAX_LOGIN_ATTEMPTS e"
  shows "fst (consecutive_logins e d username as) =
           replicate (length as) (Failure Invalid_credentials) \<and>
         login_user (snd (consecutive_logins e d username as)) username =
           Some (u\<lparr>au_failed_login_attempts := au_failed_login_attempts u + int (length as)\<rparr>)"
  using assms
proof (induction as arbitrary: d u)
  case Nil
  then show ?case by simp
next
  case (Cons a as)
  obtain clk password where a: "a = (clk, password)"
    by (cases a)
  let ?f = "\<lambda>au. if au_id au = au_id u
                  then au\<lparr>au_failed_login_attempts := au_failed_login_attempts u + 1,
                          au_locked_until_ts :=
                            (if MAX_LOGIN_ATTEMPTS e \<le> au_failed_login_attempts u + 1
                             then Some (lock_Date_now clk + LOCKOUT_TIME e)
                             else au_locked_until_ts au)\<rparr>
                  else au"
  let ?d1 = "d\<lparr>AdminUsers := map ?f (AdminUsers d)\<rparr>"
  let ?u1 = "u\<lparr>au_failed_login_attempts := au_failed_login_attempts u + 1\<rparr>"
  have step: "authenticateUser e no_faults clk d username password =
                (Failure Invalid_credentials, ?d1)"
    using Cons.prems a
    by (intro authenticateUser_wrong_password) (auto simp: no_faults_def split: option.splits)
  have below: "\<not> MAX_LOGIN_ATTEMPTS e \<le> au_failed_login_attempts u + 1"
    using Cons.prems(4) by simp
  have "login_user ?d1 username = map_option ?f (login_user d username)"
    by (rule login_user_update) simp_all
  with Cons.prems(1) below have u1: "login_user ?d1 username = Some ?u1"
    by simp
  have ih: "fst (consecutive_logins e ?d1 username as) =
              replicate (length as) (Failure Invalid_credentials) \<and>
            login_user (snd (consecutive_logins e ?d1 username as)) username =
              Some (?u1\<lparr>au_failed_login_attempts :=
                          au_failed_login_attempts ?u1 + int (length as)\<rparr>)"
    using Cons.prems by (intro Cons.IH [OF u1]) (auto split: option.splits)
  show ?case
    using ih step a by (simp add: split_beta add.assoc add.commute)
qed

lemma wrong_login_at_threshold:
  assumes "login_user d username = Some u" "au_is_active u"
    "\<not> (case au_locked_until_ts u of None \<Rightarrow> False | Some l \<Rightarrow> new_Date clk < l)"
    "\<not> bcrypt_compare e password (au_password_hash u)"
    "MAX_LOGIN_ATTEMPTS e \<le> au_failed_login_attempts u + 1"
  shows "fst (consecutive_logins e d username [(clk, password)]) = [Failure Invalid_credentials] \<and>
         login_user (snd (consecutive_logins e d username [(clk, password)])) username =
           Some (u\<lparr>au_failed_login_attempts := au_failed_login_attempts u + 1,
                   au_locked_until_ts := Some (lock_Date_now clk + LOCKOUT_TIME e)\<rparr>)"
proof -
  let ?f = "\<lambda>au. if au_id au = au_id u
                  then au\<lparr>au_failed_login_attempts := au_failed_login_attempts u + 1,
                          au_locked_until_ts :=
                            (if MAX_LOGIN_ATTEMPTS e \<le> au_failed_login_attempts u + 1
                             then Some (lock_Date_now clk + LOCKOUT_TIME e)
                             else au_locked_until_ts au)\<rparr>
                  else au"
  let ?d1 = "d\<lparr>AdminUsers := map ?f (AdminUsers d)\<rparr>"
  have step: "authenticateUser e no_faults clk d username password =
                (Failure Invalid_credentials, ?d1)"
    using assms
    by (intro authenticateUser_wrong_password) (simp_all add: no_faults_def)
  have "login_user ?d1 username = map_option ?f (login_user d username)"
    by (rule login_user_update) simp_all
  with assms(1,5) step show ?thesis
    by simp
qed

lemma lockout_after_wrong_logins:
  assumes "login_user d username = Some u" "au_is_active u"
    "\<forall>a \<in> set (as @ [(clk, password)]).
       \<not> (case au_locked_until_ts u of None \<Rightarrow> False | Some l \<Rightarrow> new_Date (fst a) < l) \<and>
       \<not> bcrypt_compare e (snd a) (au_password_hash u)"
    "au_failed_login_attempts u + int (length as) + 1 = MAX_LOGIN_ATTEMPTS e"
  shows "fst (consecutive_logins e d username (as @ [(clk, password)])) =
           replicate (length as + 1) (Failure Invalid_credentials) \<and>
         login_user (snd (consecutive_logins e d username (as @ [(clk, password)]))) username =
           Some (u\<lparr>au_failed_login_attempts := MAX_LOGIN_ATTEMPTS e,
                   au_locked_until_ts := Some (lock_Date_now clk + LOCKOUT_TIME e)\<rparr>)"
proof -
  let ?d1 = "snd (consecutive_logins e d username as)"
  let ?u1 = "u\<lparr>au_failed_login_attempts := au_failed_login_attempts u + int (length as)\<rparr>"
  have first: "fst (consecutive_logins e d username as) =
                 replicate (length as) (Failure Invalid_credentials) \<and>
               login_user ?d1 username = Some ?u1"
    using assms by (intro wrong_logins_below_threshold) (auto split: option.splits)
  have last: "fst (consecutive_logins e ?d1 username [(clk, password)]) =
                [Failure Invalid_credentials] \<and>
              login_user (snd (consecutive_logins e ?d1 username [(clk, password)])) username =
                Some (?u1\<lparr>au_failed_login_attempts := au_failed_login_attempts ?u1 + 1,
                         au_locked_until_ts := Some (lock_Date_now clk + LOCKOUT_TIME e)\<rparr>)"
    using assms first by (intro wrong_login_at_threshold) (auto split: option.splits)
  have "replicate (length as) (Failure Invalid_credentials) @ [Failure Invalid_credentials] =
        replicate (length as + 1) (Failure Invalid_credentials)"
    by (simp add: replicate_append_same)
  with first last assms(4) show ?thesis
    unfolding consecutive_logins_append
    by (simp add: split_beta del: consecutive_logins.simps)
qed

section \<open>Wrong passwords, locks and successful logins\<close>

lemma Math_ceil_div_ceiling:
  "Math_ceil_div a b = \<lceil>real_of_int a / real_of_int b\<rceil>"
  by (simp add: Math_ceil_div_def ceiling_divide_eq_div)

lemma in_set_mapI: "x \<in> set xs \<Longrightarrow> f x \<in> set (map f xs)"
  by simp

lemma authenticateUser_SuccessD:
  assumes "authenticateUser e flt clk d username password = (Success user, d')"
  shows "\<exists>userData rest. login_query d username = userData # rest \<and>
           AuthUser_id user = au_id (row_au userData) \<and>
           d' = d\<lparr>AdminUsers :=
                    map (\<lambda>au. if au_id au = au_id (row_au userData)
                               then au\<lparr>au_failed_login_attempts := 0,
                                       au_locked_until_ts := None,
                                       au_last_login_ts := Some (GETDATE clk)\<rparr>
                               else au) (AdminUsers d)\<rparr>"
  using assms
  by (auto simp: authenticateUser_def query_def Let_def handleFailedLogin_def
        AuthService_buildUserFromResults_def
      split: if_splits list.splits option.splits sum.splits)

text \<open>
  C3. A login with a wrong password for a user who exists, is active and is not locked at
  the moment of the check, against a store that answers: the stored counter becomes the
  counter read plus one; when that reaches \<open>MAX_LOGIN_ATTEMPTS\<close> the same update sets
  \<open>locked_until_ts\<close> to the clock reading of \<open>handleFailedLogin\<close> plus \<open>LOCKOUT_TIME\<close>,
  otherwise the counter is all that is written; either way the caller gets
  \<open>'Invalid credentials'\<close>. \<open>MAX_LOGIN_ATTEMPTS\<close> is the value the environment
  configures, and 5 when it configures none; \<open>LOCKOUT_TIME\<close> is the configured number of
  milliseconds, and 15 minutes when none is configured.
\<close>

theorem wrong_password_counted:
  assumes "login_query d username = userData # rest"
    and "au_is_active (row_au userData)"
    and "\<not> (case au_locked_until_ts (row_au userData) of
               None \<Rightarrow> False | Some l \<Rightarrow> new_Date clk < l)"
    and "\<not> bcrypt_compare e password (au_password_hash (row_au userData))"
    and "\<not> select_fails flt" and "\<not> update_fails flt"
  shows "authenticateUser e flt clk d username password =
           (Failure Invalid_credentials,
            d\<lparr>AdminUsers :=
                map (\<lambda>au. if au_id au = au_id (row_au userData)
                           then if MAX_LOGIN_ATTEMPTS e
                                   \<le> au_failed_login_attempts (row_au userData) + 1
                                then au\<lparr>au_failed_login_attempts :=
                                          au_failed_login_attempts (row_au userData) + 1,
                                        au_locked_until_ts :=
                                          Some (lock_Date_now clk + LOCKOUT_TIME e)\<rparr>
                                else au\<lparr>au_failed_login_attempts :=
                                          au_failed_login_attempts (row_au userData) + 1\<rparr>
                           else au) (AdminUsers d)\<rparr>) \<and>
         (env_MAX_LOGIN_ATTEMPTS e = None \<longrightarrow> MAX_LOGIN_ATTEMPTS e = 5) \<and>
         (\<forall>n. env_MAX_LOGIN_ATTEMPTS e = Some n \<longrightarrow> MAX_LOGIN_ATTEMPTS e = n) \<and>
         (env_LOCKOUT_TIME e = None \<longrightarrow> LOCKOUT_TIME e = 15 * 60 * 1000) \<and>
         (\<forall>n. env_LOCKOUT_TIME e = Some n \<longrightarrow> LOCKOUT_TIME e = n)"
proof -
  have "login_user d username = Some (row_au userData)"
    using assms(1) by (rule login_user_Cons)
  then have "authenticateUser e flt clk d username password =
           (Failure Invalid_credentials,
            d\<lparr>AdminUsers :=
                map (\<lambda>au. if au_id au = au_id (row_au userData)
                           then au\<lparr>au_failed_login_attempts :=
                                     au_failed_login_attempts (row_au userData) + 1,
                                   au_locked_until_ts :=
                                     (if MAX_LOGIN_ATTEMPTS e
                                         \<le> au_failed_login_attempts (row_au userData) + 1
                                      then Some (lock_Date_now clk + LOCKOUT_TIME e)
                                      else au_locked_until_ts au)\<rparr>
                           else au) (AdminUsers d)\<rparr>)"
    using assms by (intro authenticateUser_wrong_password) simp_all
  moreover have "(\<lambda>au. if au_id au = au_id (row_au userData)
                           then au\<lparr>au_failed_login_attempts :=
                                     au_failed_login_attempts (row_au userData) + 1,
                                   au_locked_until_ts :=
                                     (if MAX_LOGIN_ATTEMPTS e
                                         \<le> au_failed_login_attempts (row_au userData) + 1
                                      then Some (lock_Date_now clk + LOCKOUT_TIME e)
                                      else au_locked_until_ts au)\<rparr>
                           else au) =
        (\<lambda>au. if au_id au = au_id (row_au userData)
                           then if MAX_LOGIN_ATTEMPTS e
                                   \<le> au_failed_login_attempts (row_au userData) + 1
                                then au\<lparr>au_failed_login_attempts :=
                                          au_failed_login_attempts (row_au userData) + 1,
                                        au_locked_until_ts :=
                                          Some (lock_Date_now clk + LOCKOUT_TIME e)\<rparr>
                                else au\<lparr>au_failed_login_attempts :=
                                          au_failed_login_attempts (row_au userData) + 1\<rparr>
                           else au)"
    by (rule ext) simp
  ultimately show ?thesis
    by (simp add: MAX_LOGIN_ATTEMPTS_def LOCKOUT_TIME_def)
qed

text \<open>
  With nothing configured, alice's fifth wrong password, at 5000, locks her until 905000,
  and her first only counts. Configured to 3 attempts and 2 minutes, her third, at 5000,
  locks her until 125000.
\<close>

theorem wrong_password_counted_witness:
  "authenticateUser example_env no_faults (clock_at 5000) stale_db ''alice'' ''guess5'' =
     (Failure Invalid_credentials,
      example_db
        \<lparr>AdminUsers :=
           [alice\<lparr>au_failed_login_attempts := 5, au_locked_until_ts := Some 905000\<rparr>]\<rparr>) \<and>
   authenticateUser example_env no_faults (clock_at 5000) example_db ''alice'' ''guess5'' =
     (Failure Invalid_credentials,
      example_db\<lparr>AdminUsers := [alice\<lparr>au_failed_login_attempts := 1\<rparr>]\<rparr>) \<and>
   MAX_LOGIN_ATTEMPTS configured_env = 3 \<and> LOCKOUT_TIME configured_env = 120000 \<and>
   authenticateUser configured_env no_faults (clock_at 5000) twice_db ''alice'' ''guess3'' =
     (Failure Invalid_credentials,
      example_db
        \<lparr>AdminUsers :=
           [alice\<lparr>au_failed_login_attempts := 3, au_locked_until_ts := Some 125000\<rparr>]\<rparr>)"
proof -
  have q1: "login_query stale_db ''alice'' =
          \<lparr>row_au = alice\<lparr>au_failed_login_attempts := 4, au_locked_until_ts := Some 500\<rparr>,
            row_r = Some Editor, row_p = Some news_create\<rparr> # tl (login_query stale_db ''alice'')"
    by code_simp
  have q2: "login_query example_db ''alice'' =
          \<lparr>row_au = alice, row_r = Some Editor, row_p = Some news_create\<rparr> #
          tl (login_query example_db ''alice'')"
    by code_simp
  have q3: "login_query twice_db ''alice'' =
          \<lparr>row_au = alice\<lparr>au_failed_login_attempts := 2\<rparr>,
            row_r = Some Editor, row_p = Some news_create\<rparr> # tl (login_query twice_db ''alice'')"
    by code_simp
  note unset1 = wrong_password_counted [OF q1, of "clock_at 5000" example_env "''guess5''"
      no_faults]
  note unset2 = wrong_password_counted [OF q2, of "clock_at 5000" example_env "''guess5''"
      no_faults]
  note configured = wrong_password_counted [OF q3, of "clock_at 5000" configured_env
      "''guess3''" no_faults]
  have e: "MAX_LOGIN_ATTEMPTS example_env = 5" "LOCKOUT_TIME example_env = 900000"
    using unset1 by (simp_all add: alice_def clock_at_def example_env_def plain_compare_def
        no_faults_def)
  have c: "MAX_LOGIN_ATTEMPTS configured_env = 3" "LOCKOUT_TIME configured_env = 120000"
    using configured by (simp_all add: alice_def clock_at_def configured_env_def
        plain_compare_def no_faults_def)
  have "authenticateUser example_env no_faults (clock_at 5000) stale_db ''alice'' ''guess5'' =
     (Failure Invalid_credentials,
      example_db
        \<lparr>AdminUsers :=
           [alice\<lparr>au_failed_login_attempts := 5, au_locked_until_ts := Some 905000\<rparr>]\<rparr>)"
    using unset1 unfolding e
    by (simp add: alice_def clock_at_def example_env_def plain_compare_def no_faults_def
          stale_db_def example_db_def)
  moreover
  have "authenticateUser example_env no_faults (clock_at 5000) example_db ''alice'' ''guess5'' =
     (Failure Invalid_credentials,
      example_db\<lparr>AdminUsers := [alice\<lparr>au_failed_login_attempts := 1\<rparr>]\<rparr>)"
    using unset2 unfolding e
    by (simp add: alice_def clock_at_def example_env_def plain_compare_def no_faults_def
          example_db_def)
  moreover
  have "authenticateUser configured_env no_faults (clock_at 5000) twice_db ''alice'' ''guess3'' =
     (Failure Invalid_credentials,
      example_db
        \<lparr>AdminUsers :=
           [alice\<lparr>au_failed_login_attempts := 3, au_locked_until_ts := Some 125000\<rparr>]\<rparr>)"
    using configured unfolding c
    by (simp add: alice_def clock_at_def configured_env_def plain_compare_def no_faults_def
          twice_db_def example_db_def)
  ultimately show ?thesis
    using c by simp
qed

text \<open>
  C4. When the user's \<open>locked_until_ts\<close> is set and the clock of the check is before it,
  the login fails with \<open>'Account is locked. Try again in n minutes.'\<close>, where \<open>n\<close> is the
  ceiling of the time left, in minutes, at the second clock reading. The password, right
  or wrong, is never looked at, and nothing is written. Once the clock of the check has
  reached \<open>locked_until_ts\<close>, no login is answered with the locked message.
\<close>

theorem lock_precedes_password:
  assumes "login_query d username = userData # rest"
    and "au_locked_until_ts (row_au userData) = Some l"
    and "\<not> select_fails flt"
  shows "(new_Date clk < l \<longrightarrow>
            authenticateUser e flt clk d username password =
              (Failure (Account_locked \<lceil>real_of_int (l - Date_now clk) / 60000\<rceil>), d)) \<and>
         (l \<le> new_Date clk \<longrightarrow>
            (\<forall>m. fst (authenticateUser e flt clk d username password) \<noteq>
                   Failure (Account_locked m)))"
proof (intro conjI impI)
  assume before: "new_Date clk < l"
  have "login_user d username = Some (row_au userData)"
    using assms(1) by (rule login_user_Cons)
  then have "authenticateUser e flt clk d username password =
           (Failure (Account_locked (Math_ceil_div (l - Date_now clk) 60000)), d)"
    using assms before by (intro authenticateUser_locked) simp_all
  then show "authenticateUser e flt clk d username password =
           (Failure (Account_locked \<lceil>real_of_int (l - Date_now clk) / 60000\<rceil>), d)"
    by (simp add: Math_ceil_div_ceiling)
next
  assume "l \<le> new_Date clk"
  with assms
  show "\<forall>m. fst (authenticateUser e flt clk d username password) \<noteq> Failure (Account_locked m)"
    by (auto simp: authenticateUser_def query_def Let_def handleFailedLogin_def
          split: sum.splits option.splits if_splits)
qed

text \<open>
  Locked until 905000, alice presents the right password at 6000, and again at 905000.
\<close>

theorem lock_precedes_password_witness:
  "bcrypt_compare example_env ''secret'' (au_password_hash alice) \<and>
   authenticateUser example_env no_faults (clock_at 6000) locked_db ''alice'' ''secret'' =
     (Failure (Account_locked 15), locked_db) \<and>
   fst (authenticateUser example_env no_faults (clock_at 905000) locked_db ''alice''
          ''secret'') \<noteq> Failure (Account_locked 0) \<and>
   (case fst (authenticateUser example_env no_faults (clock_at 905000) locked_db ''alice''
                ''secret'') of
      Success user \<Rightarrow> AuthUser_id user = 1
    | Failure _ \<Rightarrow> False)"
proof -
  let ?w = "\<lparr>row_au = alice\<lparr>au_failed_login_attempts := 5, au_locked_until_ts := Some 905000\<rparr>,
            row_r = Some Editor, row_p = Some news_create\<rparr>"
  have q: "login_query locked_db ''alice'' = ?w # tl (login_query locked_db ''alice'')"
    by code_simp
  have l: "au_locked_until_ts (row_au ?w) = Some 905000"
    by simp
  have store: "\<not> select_fails no_faults"
    by (simp add: no_faults_def)
  have c: "\<lceil>real_of_int (905000 - Date_now (clock_at 6000)) / 60000\<rceil> = 15"
    by (simp add: clock_at_def ceiling_eq_iff)
  have "bcrypt_compare example_env ''secret'' (au_password_hash alice)"
    by (simp add: example_env_def plain_compare_def alice_def)
  moreover
  have "authenticateUser example_env no_faults (clock_at 6000) locked_db ''alice'' ''secret'' =
          (Failure (Account_locked 15), locked_db)"
    using lock_precedes_password [OF q l store, where clk = "clock_at 6000"
        and e = example_env and password = "''secret''"] c
    by (simp add: clock_at_def)
  moreover
  have "fst (authenticateUser example_env no_faults (clock_at 905000) locked_db ''alice''
          ''secret'') \<noteq> Failure (Account_locked 0)"
    using lock_precedes_password [OF q l store, where clk = "clock_at 905000"
        and e = example_env and password = "''secret''"]
    by (simp add: clock_at_def)
  moreover
  have "(case fst (authenticateUser example_env no_faults (clock_at 905000) locked_db ''alice''
                ''secret'') of
      Success user \<Rightarrow> AuthUser_id user = 1
    | Failure _ \<Rightarrow> False)"
    by code_simp
  ultimately show ?thesis
    by blast
qed

text \<open>
  C6. A login that succeeds has written, before it returns, the counter 0, no
  \<open>locked_until_ts\<close> and the store's current time as \<open>last_login_ts\<close> into the row of the
  user it returns, whatever the counter and the lock were; the user has such a row.
  \<open>UserModel.updateLastLogin\<close> writes the same, and clears \<open>IS_LOCKED\<close> as well.
\<close>

theorem successful_login_resets:
  assumes "authenticateUser e flt clk d username password = (Success user, d')"
  shows "d' = d\<lparr>AdminUsers :=
                  map (\<lambda>au. if au_id au = AuthUser_id user
                             then au\<lparr>au_failed_login_attempts := 0,
                                     au_locked_until_ts := None,
                                     au_last_login_ts := Some (GETDATE clk)\<rparr>
                             else au) (AdminUsers d)\<rparr> \<and>
         (\<exists>au \<in> set (AdminUsers d'). au_id au = AuthUser_id user) \<and>
         (\<forall>au \<in> set (AdminUsers d'). au_id au = AuthUser_id user \<longrightarrow>
            au_failed_login_attempts au = 0 \<and> au_locked_until_ts au = None \<and>
            au_last_login_ts au = Some (GETDATE clk)) \<and>
         updateLastLogin False (GETDATE clk) d (AuthUser_id user) =
           Inr (d\<lparr>AdminUsers :=
                    map (\<lambda>au. if au_id au = AuthUser_id user
                               then au\<lparr>au_last_login_ts := Some (GETDATE clk),
                                       au_failed_login_attempts := 0,
                                       au_is_locked := False,
                                       au_locked_until_ts := None\<rparr>
                               else au) (AdminUsers d)\<rparr>)"
proof -
  obtain userData rest where q: "login_query d username = userData # rest"
    and i: "AuthUser_id user = au_id (row_au userData)"
    and d': "d' = d\<lparr>AdminUsers :=
                    map (\<lambda>au. if au_id au = au_id (row_au userData)
                               then au\<lparr>au_failed_login_attempts := 0,
                                       au_locked_until_ts := None,
                                       au_last_login_ts := Some (GETDATE clk)\<rparr>
                               else au) (AdminUsers d)\<rparr>"
    using authenticateUser_SuccessD [OF assms] by blast
  have "login_user d username = Some (row_au userData)"
    using q by (rule login_user_Cons)
  then have "find (\<lambda>au. au_username au = username \<or> au_email au = username) (AdminUsers d) =
               Some (row_au userData)"
    by (simp add: login_user_find)
  then have mem: "row_au userData \<in> set (AdminUsers d)"
    by (auto simp: find_Some_iff)
  let ?f = "\<lambda>au. if au_id au = au_id (row_au userData)
                  then au\<lparr>au_failed_login_attempts := 0,
                          au_locked_until_ts := None,
                          au_last_login_ts := Some (GETDATE clk)\<rparr>
                  else au"
  have "?f (row_au userData) \<in> set (map ?f (AdminUsers d))"
    using mem by (rule in_set_mapI)
  moreover have "au_id (?f (row_au userData)) = AuthUser_id user"
    using i by simp
  ultimately have "\<exists>au \<in> set (AdminUsers d'). au_id au = AuthUser_id user"
    unfolding d' by (intro bexI [of _ "?f (row_au userData)"]) simp_all
  with d' i show ?thesis
    by (auto simp: updateLastLogin_def query_def)
qed

text \<open>
  With four failed logins and a lock that ran out at 500, alice logs in at 1000.
\<close>

theorem successful_login_resets_witness:
  "(case authenticateUser example_env no_faults (clock_at 1000) stale_db ''alice'' ''secret'' of
      (Success user, d') \<Rightarrow>
        AuthUser_id user = 1 \<and>
        AdminUsers d' =
          [alice\<lparr>au_failed_login_attempts := 0, au_locked_until_ts := None,
                 au_last_login_ts := Some 1000\<rparr>]
    | (Failure _, _) \<Rightarrow> False)"
proof -
  have "(case fst (authenticateUser example_env no_faults (clock_at 1000) stale_db
                     ''alice'' ''secret'') of
           Success user \<Rightarrow> AuthUser_id user = 1 | Failure _ \<Rightarrow> False)"
    by code_simp
  then obtain user d' where
    h: "authenticateUser example_env no_faults (clock_at 1000) stale_db ''alice'' ''secret'' =
          (Success user, d')" and i: "AuthUser_id user = 1"
    by (cases "authenticateUser example_env no_faults (clock_at 1000) stale_db
                 ''alice'' ''secret''")
       (auto split: login_result.splits)
  show ?thesis
    using successful_login_resets [OF h] h i
    by (simp add: stale_db_def example_db_def alice_def clock_at_def)
qed

section \<open>What a failed login tells the caller\<close>

text \<open>
  C7, as stated, fails: a wrong password for a user who exists is not always answered
  like an unknown identifier. With alice locked until 905000, a login at 6000 for
  \<open>nobody\<close> gets \<open>'Invalid credentials'\<close> and one for \<open>alice\<close> with a wrong password
  gets \<open>'Account is locked. Try again in 15 minutes.'\<close>. And with alice not locked but
  the store refusing the update, \<open>nobody\<close> still gets \<open>'Invalid credentials'\<close>, while
  \<open>alice\<close> with a wrong password gets \<open>'Authentication failed'\<close>.
\<close>

theorem locked_user_not_uniform:
  "fst (authenticateUser example_env no_faults (clock_at 6000) locked_db ''nobody'' ''guess'') =
     Failure Invalid_credentials \<and>
   fst (authenticateUser example_env no_faults (clock_at 6000) locked_db ''alice'' ''guess'') =
     Failure (Account_locked 15) \<and>
   \<not> bcrypt_compare example_env ''guess'' (au_password_hash alice) \<and>
   fst (authenticateUser example_env \<lparr>select_fails = False, update_fails = True\<rparr>
          (clock_at 1000) example_db ''nobody'' ''guess'') =
     Failure Invalid_credentials \<and>
   fst (authenticateUser example_env \<lparr>select_fails = False, update_fails = True\<rparr>
          (clock_at 1000) example_db ''alice'' ''guess'') =
     Failure Authentication_failed"
  by code_simp

text \<open>
  C7, amended. When the user who exists is active and not locked at the moment of the
  check, and the store answers the query of either login and the update that records
  the failure, the login with a wrong password and the login for an identifier that
  matches no user return the same failure, \<open>'Invalid credentials'\<close>.
\<close>

theorem uniform_invalid_credentials:
  assumes "login_query d username = []"
    and "login_query d' username' = userData # rest"
    and "au_is_active (row_au userData)"
    and "\<not> (case au_locked_until_ts (row_au userData) of
               None \<Rightarrow> False | Some l \<Rightarrow> new_Date clk' < l)"
    and "\<not> bcrypt_compare e password' (au_password_hash (row_au userData))"
    and "\<not> select_fails flt" and "\<not> select_fails flt'" and "\<not> update_fails flt'"
  shows "fst (authenticateUser e flt clk d username password) = Failure Invalid_credentials \<and>
         fst (authenticateUser e flt' clk' d' username' password') = Failure Invalid_credentials"
proof -
  have "authenticateUser e flt clk d username password = (Failure Invalid_credentials, d)"
    using assms(1,6) by (simp add: authenticateUser_def query_def)
  moreover have "login_user d' username' = Some (row_au userData)"
    using assms(2) by (rule login_user_Cons)
  then have "fst (authenticateUser e flt' clk' d' username' password') =
               Failure Invalid_credentials"
    using assms authenticateUser_wrong_password [of flt' d' username' "row_au userData" clk' e password']
    by simp
  ultimately show ?thesis by simp
qed

text \<open>In the small school, at 1000: \<open>nobody\<close>, and \<open>alice\<close> with a wrong password.\<close>

theorem uniform_invalid_credentials_witness:
  "fst (authenticateUser example_env no_faults (clock_at 1000) example_db ''nobody'' ''guess'') =
     Failure Invalid_credentials \<and>
   fst (authenticateUser example_env no_faults (clock_at 1000) example_db ''alice'' ''guess'') =
     Failure Invalid_credentials"
proof -
  have q0: "login_query example_db ''nobody'' = []"
    by code_simp
  have q1: "login_query example_db ''alice'' =
          \<lparr>row_au = alice, row_r = Some Editor, row_p = Some news_create\<rparr> #
          tl (login_query example_db ''alice'')"
    by code_simp
  show ?thesis
    using uniform_invalid_credentials [OF q0 q1, of "clock_at 1000" example_env "''guess''"
        no_faults no_faults "clock_at 1000" "''guess''"]
    by (simp add: alice_def clock_at_def example_env_def plain_compare_def no_faults_def)
qed

section \<open>Five wrong passwords\<close>

text \<open>
  C2, as stated, fails: alice is active, has no failed login and the maximum is 5, and
  her fifth wrong password in a row is answered with \<open>'Invalid credentials'\<close>, not with
  the locked message.
\<close>

theorem fifth_wrong_password_not_locked_result:
  "au_is_active alice \<and> au_failed_login_attempts alice = 0 \<and>
   MAX_LOGIN_ATTEMPTS example_env = 5 \<and> length five_wrong = 5 \<and>
   fst (consecutive_logins example_env example_db ''alice'' five_wrong) ! 4 =
     Failure Invalid_credentials"
  by code_simp

text \<open>
  C2, amended. For an active user with no failed login, a maximum of 5 and no lock in
  force, each of five wrong passwords in a row is answered with \<open>'Invalid credentials'\<close>;
  the fifth leaves the user with a counter of 5 and locked until its clock reading plus
  \<open>LOCKOUT_TIME\<close>. Every login after that whose check comes before that time, whatever
  its password, is answered with the locked message, whose minutes are the ceiling of
  the time left: the whole lockout duration for a login that follows at once.
\<close>

theorem fifth_wrong_password_locks:
  assumes "MAX_LOGIN_ATTEMPTS e = 5"
    and "login_query d username = userData # rest"
    and "au_is_active (row_au userData)"
    and "au_failed_login_attempts (row_au userData) = 0"
    and "length attempts = 5"
    and "\<forall>a \<in> set attempts.
           \<not> (case au_locked_until_ts (row_au userData) of
                 None \<Rightarrow> False | Some l \<Rightarrow> new_Date (fst a) < l) \<and>
           \<not> bcrypt_compare e (snd a) (au_password_hash (row_au userData))"
  shows "fst (consecutive_logins e d username attempts) =
           replicate 5 (Failure Invalid_credentials) \<and>
         login_user (snd (consecutive_logins e d username attempts)) username =
           Some ((row_au userData)
                   \<lparr>au_failed_login_attempts := 5,
                    au_locked_until_ts :=
                      Some (lock_Date_now (fst (last attempts)) + LOCKOUT_TIME e)\<rparr>) \<and>
         (\<forall>clk password.
            new_Date clk < lock_Date_now (fst (last attempts)) + LOCKOUT_TIME e \<longrightarrow>
            authenticateUser e no_faults clk (snd (consecutive_logins e d username attempts))
              username password =
              (Failure (Account_locked
                 \<lceil>real_of_int (lock_Date_now (fst (last attempts)) + LOCKOUT_TIME e
                               - Date_now clk) / 60000\<rceil>),
               snd (consecutive_logins e d username attempts)))"
proof -
  let ?u = "row_au userData"
  let ?until = "lock_Date_now (fst (last attempts)) + LOCKOUT_TIME e"
  let ?d5 = "snd (consecutive_logins e d username attempts)"
  have ne: "attempts \<noteq> []"
    using assms(5) by auto
  obtain clk5 password5 where l: "last attempts = (clk5, password5)"
    by (cases "last attempts")
  have split: "attempts = butlast attempts @ [(clk5, password5)]"
    using ne l by (metis append_butlast_last_id)
  have len: "int (length (butlast attempts)) = 4"
    using assms(5) by simp
  have u: "login_user d username = Some ?u"
    using assms(2) by (rule login_user_Cons)
  have all: "\<forall>a \<in> set (butlast attempts @ [(clk5, password5)]).
           \<not> (case au_locked_until_ts ?u of
                 None \<Rightarrow> False | Some l \<Rightarrow> new_Date (fst a) < l) \<and>
           \<not> bcrypt_compare e (snd a) (au_password_hash ?u)"
    using assms(6) split by simp
  have "fst (consecutive_logins e d username (butlast attempts @ [(clk5, password5)])) =
           replicate (length (butlast attempts) + 1) (Failure Invalid_credentials) \<and>
         login_user (snd (consecutive_logins e d username
                            (butlast attempts @ [(clk5, password5)]))) username =
           Some (?u\<lparr>au_failed_login_attempts := MAX_LOGIN_ATTEMPTS e,
                   au_locked_until_ts := Some (lock_Date_now clk5 + LOCKOUT_TIME e)\<rparr>)"
    using u assms(3) all
  proof (rule lockout_after_wrong_logins)
    show "au_failed_login_attempts ?u + int (length (butlast attempts)) + 1 =
            MAX_LOGIN_ATTEMPTS e"
      using assms(1,4) len by simp
  qed
  then have res: "fst (consecutive_logins e d username attempts) =
           replicate 5 (Failure Invalid_credentials)"
    and u5: "login_user ?d5 username =
           Some (?u\<lparr>au_failed_login_attempts := 5, au_locked_until_ts := Some ?until\<rparr>)"
    using split [symmetric] assms(1,5) l by simp_all
  have "authenticateUser e no_faults clk ?d5 username password =
          (Failure (Account_locked \<lceil>real_of_int (?until - Date_now clk) / 60000\<rceil>), ?d5)"
    if "new_Date clk < ?until" for clk password
    using authenticateUser_locked [OF _ u5, of no_faults ?until clk e password] that
    by (simp add: no_faults_def Math_ceil_div_ceiling)
  with res u5 show ?thesis
    by blast
qed

text \<open>
  Alice's five wrong passwords leave her locked until 905000; her right password at
  5000 is answered with 15 minutes, the default lockout.
\<close>

theorem fifth_wrong_password_locks_witness:
  "fst (consecutive_logins example_env example_db ''alice'' five_wrong) =
     replicate 5 (Failure Invalid_credentials) \<and>
   snd (consecutive_logins example_env example_db ''alice'' five_wrong) = locked_db \<and>
   authenticateUser example_env no_faults (clock_at 5000) locked_db ''alice'' ''secret'' =
     (Failure (Account_locked 15), locked_db)"
proof -
  let ?w = "\<lparr>row_au = alice, row_r = Some Editor, row_p = Some news_create\<rparr>"
  let ?d5 = "snd (consecutive_logins example_env example_db ''alice'' five_wrong)"
  have q: "login_query example_db ''alice'' = ?w # tl (login_query example_db ''alice'')"
    by code_simp
  have d5: "?d5 = locked_db"
    by code_simp
  have e: "MAX_LOGIN_ATTEMPTS example_env = 5" "LOCKOUT_TIME example_env = 900000"
    by (simp_all add: MAX_LOGIN_ATTEMPTS_def LOCKOUT_TIME_def example_env_def)
  have active: "au_is_active (row_au ?w)" and zero: "au_failed_login_attempts (row_au ?w) = 0"
    by (simp_all add: alice_def)
  have five: "length five_wrong = 5"
    by (simp add: five_wrong_def)
  have wrong: "\<forall>a \<in> set five_wrong.
           \<not> (case au_locked_until_ts (row_au ?w) of
                 None \<Rightarrow> False | Some l \<Rightarrow> new_Date (fst a) < l) \<and>
           \<not> bcrypt_compare example_env (snd a) (au_password_hash (row_au ?w))"
    by (simp add: five_wrong_def alice_def example_env_def plain_compare_def)
  have until: "lock_Date_now (fst (last five_wrong)) + LOCKOUT_TIME example_env = 905000"
    by (simp add: five_wrong_def clock_at_def e)
  note locks = fifth_wrong_password_locks [OF e(1) q active zero five wrong, unfolded until]
  from locks have results: "fst (consecutive_logins example_env example_db ''alice'' five_wrong) =
      replicate 5 (Failure Invalid_credentials)"
    by blast
  from locks have "new_Date (clock_at 5000) < 905000 \<longrightarrow>
      authenticateUser example_env no_faults (clock_at 5000) ?d5 ''alice'' ''secret'' =
        (Failure (Account_locked \<lceil>real_of_int (905000 - Date_now (clock_at 5000)) / 60000\<rceil>),
         ?d5)"
    by blast
  moreover have "\<lceil>real_of_int (905000 - Date_now (clock_at 5000)) / 60000\<rceil> = 15"
    by (simp add: clock_at_def ceiling_eq_iff)
  moreover have "new_Date (clock_at 5000) < 905000"
    by (simp add: clock_at_def)
  ultimately have "authenticateUser example_env no_faults (clock_at 5000) ?d5 ''alice''
      ''secret'' = (Failure (Account_locked 15), ?d5)"
    by simp
  with results d5 show ?thesis
    by simp
qed

section \<open>The inactivity timeout\<close>

lemma SQL_MIN_Min: "SQL_MIN xs = (if xs = [] then None else Some (Min (set xs)))"
  by (cases xs) (simp_all add: SQL_MIN_def Min.set_eq_fold [symmetric])

lemma timeout_rows_positive: "m \<in> set (timeout_rows d userId) \<Longrightarrow> 0 < m"
  by (auto simp: timeout_rows_def)

text \<open>
  What the code computes: the least value among the rows of the timeout query, in
  milliseconds, and 0 when the query has no row.
\<close>

lemma getInactivityTimeout_Min:
  "getInactivityTimeout False d userId =
     (if timeout_rows d userId = [] then 0
      else Min (set (timeout_rows d userId)) * 60 * 1000)"
proof (cases "timeout_rows d userId = []")
  case True
  then show ?thesis
    by (simp add: getInactivityTimeout_def query_def timeout_query_def SQL_MIN_Min)
next
  case False
  have "Min (set (timeout_rows d userId)) \<in> set (timeout_rows d userId)"
    using False by (intro Min_in) simp_all
  then have "0 < Min (set (timeout_rows d userId))"
    by (rule timeout_rows_positive)
  with False show ?thesis
    by (simp add: getInactivityTimeout_def query_def timeout_query_def SQL_MIN_Min)
qed

lemma requireAuth_without_timeout:
  assumes "getInactivityTimeout (timeout_query_fails flt) d userId = 0"
    and "session_userId s = Some userId"
  shows "fst (requireAuth flt clk d s) \<noteq> Status401 Session_expired_due_to_inactivity \<and>
         snd (requireAuth flt clk d s) \<noteq> None"
  using assms by (auto simp: requireAuth_def Let_def split: option.splits)

text \<open>
  C5. The timeout of a session is meant to be the least positive timeout among the
  active roles its user holds, and none when no such role enables one. The timeout query
  joins \<open>UserRoles\<close> without testing \<open>ur.is_active\<close>, as the identity queries do: after
  \<open>removeRoleFromUser\<close> has taken the Teacher role from alice, Editor, which carries no
  timeout, is her only role, yet \<open>getInactivityTimeout\<close> still answers Teacher's 30 days
  and \<open>requireAuth\<close> expires and destroys her session a millisecond after them. In the
  school where the Teacher assignment is absent altogether, the timeout is 0 and the same
  request passes.
\<close>

theorem removed_role_still_times_out:
  "removeRoleFromUser False example_db 2 1 = (True, removed_db) \<and>
   map (\<lambda>ur. (ur_role_id ur, ur_is_active ur)) (UserRoles removed_db) =
     [(1, True), (2, False)] \<and>
   r_inactivity_timeout_minutes Editor = 0 \<and>
   getInactivityTimeout False removed_db 1 = 30 * 24 * 60 * 60 * 1000 \<and>
   requireAuth \<lparr>timeout_query_fails = False, user_query_fails = False\<rparr>
     (request_at 2592001001) removed_db alice_session =
     (Status401 Session_expired_due_to_inactivity, None) \<and>
   getInactivityTimeout False revoked_db 1 = 0 \<and>
   fst (requireAuth \<lparr>timeout_query_fails = False, user_query_fails = False\<rparr>
          (request_at 2592001001) revoked_db alice_session) \<noteq>
     Status401 Session_expired_due_to_inactivity"
  by code_simp

text \<open>
  C8. When the timeout query throws, \<open>getInactivityTimeout\<close> answers 0, and a request
  whose user can be resolved passes \<open>requireAuth\<close> with the last activity updated, however
  long the session was idle. The other storage errors refuse: a failing user query ends
  the request with \<open>'User not found or inactive'\<close>, a failing login query with
  \<open>'Authentication failed'\<close>, and no login succeeds or writes when its update fails.
\<close>

theorem timeout_lookup_fails_open:
  "getInactivityTimeout True d userId = 0 \<and>
   (session_userId s = Some userId \<and> userId \<noteq> 0 \<and> timeout_query_fails flt \<and>
    getUserById (user_query_fails flt) d userId = Some user \<longrightarrow>
      requireAuth flt clk d s =
        (Next user, Some (s\<lparr>session_lastActivity := Some (update_Date_now clk)\<rparr>))) \<and>
   getUserById True d userId = None \<and>
   (session_userId s = Some userId \<and> userId \<noteq> 0 \<and> timeout_query_fails flt \<and>
    user_query_fails flt \<longrightarrow>
      fst (requireAuth flt clk d s) = Status401 User_not_found_or_inactive) \<and>
   (select_fails lflt \<longrightarrow>
      authenticateUser e lflt lclk d username password = (Failure Authentication_failed, d)) \<and>
   (update_fails lflt \<longrightarrow>
      fst (authenticateUser e lflt lclk d username password) \<noteq> Success user \<and>
      snd (authenticateUser e lflt lclk d username password) = d)"
  by (auto simp: getInactivityTimeout_def getUserById_def query_def requireAuth_def Let_def
        authenticateUser_def handleFailedLogin_def
      split: option.splits list.splits if_splits)

text \<open>
  Alice's session, idle for far more than her 30 days: expired when the timeout query
  answers, let through when it throws, refused when the user query throws as well.
\<close>

theorem timeout_lookup_fails_open_witness:
  "fst (requireAuth \<lparr>timeout_query_fails = True, user_query_fails = False\<rparr>
          (request_at 3000000000) example_db alice_session) \<noteq>
     Status401 Session_expired_due_to_inactivity \<and>
   requireAuth \<lparr>timeout_query_fails = True, user_query_fails = False\<rparr>
     (request_at 3000000000) example_db alice_session =
     (case getUserById False example_db 1 of
        Some user \<Rightarrow>
          (Next user, Some (alice_session\<lparr>session_lastActivity := Some 3000000000\<rparr>))
      | None \<Rightarrow> (Status401 User_not_found_or_inactive, None)) \<and>
   fst (requireAuth \<lparr>timeout_query_fails = False, user_query_fails = False\<rparr>
          (request_at 3000000000) example_db alice_session) =
     Status401 Session_expired_due_to_inactivity \<and>
   fst (requireAuth \<lparr>timeout_query_fails = True, user_query_fails = True\<rparr>
          (request_at 3000000000) example_db alice_session) =
     Status401 User_not_found_or_inactive"
proof -
  have "getUserById False example_db 1 \<noteq> None"
    by code_simp
  then obtain user where u: "getUserById False example_db 1 = Some user"
    by blast
  have expired:
    "fst (requireAuth \<lparr>timeout_query_fails = False, user_query_fails = False\<rparr>
          (request_at 3000000000) example_db alice_session) =
     Status401 Session_expired_due_to_inactivity"
    by code_simp
  show ?thesis
    using timeout_lookup_fails_open [of example_db 1 alice_session
        "\<lparr>timeout_query_fails = True, user_query_fails = False\<rparr>" user]
      timeout_lookup_fails_open [of example_db 1 alice_session
        "\<lparr>timeout_query_fails = True, user_query_fails = True\<rparr>"]
      u expired
    by (simp add: alice_session_def request_at_def)
qed

section \<open>Two records of a lock\<close>

lemma handleFailedLogin_keeps_flag:
  "handleFailedLogin e fails now d userId currentAttempts = Inr d' \<Longrightarrow>
   map au_is_locked (AdminUsers d') = map au_is_locked (AdminUsers d)"
  by (auto simp: handleFailedLogin_def query_def Let_def split: if_splits)

text \<open>
  C10, as stated, fails for an account whose \<open>IS_LOCKED\<close> flag is already set. Alice's
  fifth failed login counted by \<open>UserModel.incrementFailedLogins\<close> at 1000 sets the flag
  and a lock until 3601000. At 4000000, the lock over, \<open>AuthService\<close> answers a wrong
  password by locking her until 4900000, and \<open>isUserLocked\<close> reports her locked.
\<close>

theorem flagged_account_reported_locked:
  "incrementFailedLogins example_env False 1000 counted_db 1 =
     Inr (example_db\<lparr>AdminUsers := [flagged_alice]\<rparr>) \<and>
   authenticateUser example_env no_faults (clock_at 4000000)
     (example_db\<lparr>AdminUsers := [flagged_alice]\<rparr>) ''alice'' ''guess'' =
     (Failure Invalid_credentials,
      example_db\<lparr>AdminUsers :=
        [flagged_alice\<lparr>au_failed_login_attempts := 6, au_locked_until_ts := Some 4900000\<rparr>]\<rparr>) \<and>
   isUserLocked False 4000001
     (example_db\<lparr>AdminUsers :=
        [flagged_alice\<lparr>au_failed_login_attempts := 6, au_locked_until_ts := Some 4900000\<rparr>]\<rparr>)
     (flagged_alice\<lparr>au_failed_login_attempts := 6, au_locked_until_ts := Some 4900000\<rparr>) =
     Inr (True,
      example_db\<lparr>AdminUsers :=
        [flagged_alice\<lparr>au_failed_login_attempts := 6, au_locked_until_ts := Some 4900000\<rparr>]\<rparr>)"
  by code_simp

text \<open>
  C10, amended. The login with a wrong password that reaches the maximum writes the
  counter and \<open>locked_until_ts\<close> and leaves every \<open>IS_LOCKED\<close> flag as it was. For a user
  whose flag was clear, the stored row then carries the lock that \<open>authenticateUser\<close>
  goes by, and \<open>isUserLocked\<close>, which answers false without looking at
  \<open>locked_until_ts\<close> whenever the flag is clear, reports the account as not locked.
\<close>

theorem lock_flag_never_set:
  assumes "login_query d username = userData # rest"
    and "au_is_active (row_au userData)"
    and "\<not> (case au_locked_until_ts (row_au userData) of
               None \<Rightarrow> False | Some l \<Rightarrow> new_Date clk < l)"
    and "\<not> bcrypt_compare e password (au_password_hash (row_au userData))"
    and "\<not> select_fails flt" and "\<not> update_fails flt"
    and "MAX_LOGIN_ATTEMPTS e \<le> au_failed_login_attempts (row_au userData) + 1"
    and "\<not> au_is_locked (row_au userData)"
  shows "map au_is_locked (AdminUsers (snd (authenticateUser e flt clk d username password))) =
           map au_is_locked (AdminUsers d) \<and>
         login_user (snd (authenticateUser e flt clk d username password)) username =
           Some ((row_au userData)
                   \<lparr>au_failed_login_attempts := au_failed_login_attempts (row_au userData) + 1,
                    au_locked_until_ts := Some (lock_Date_now clk + LOCKOUT_TIME e)\<rparr>) \<and>
         (\<forall>clk' password'.
            new_Date clk' < lock_Date_now clk + LOCKOUT_TIME e \<longrightarrow>
            fst (authenticateUser e flt clk'
                   (snd (authenticateUser e flt clk d username password)) username password') =
              Failure (Account_locked
                \<lceil>real_of_int (lock_Date_now clk + LOCKOUT_TIME e - Date_now clk') / 60000\<rceil>)) \<and>
         (\<forall>fails now.
            isUserLocked fails now (snd (authenticateUser e flt clk d username password))
              ((row_au userData)
                 \<lparr>au_failed_login_attempts := au_failed_login_attempts (row_au userData) + 1,
                  au_locked_until_ts := Some (lock_Date_now clk + LOCKOUT_TIME e)\<rparr>) =
              Inr (False, snd (authenticateUser e flt clk d username password))) \<and>
         (\<forall>fails now d0 user.
            \<not> au_is_locked user \<longrightarrow> isUserLocked fails now d0 user = Inr (False, d0))"
proof -
  let ?u = "row_au userData"
  let ?f = "\<lambda>au. if au_id au = au_id ?u
                  then au\<lparr>au_failed_login_attempts := au_failed_login_attempts ?u + 1,
                          au_locked_until_ts :=
                            (if MAX_LOGIN_ATTEMPTS e \<le> au_failed_login_attempts ?u + 1
                             then Some (lock_Date_now clk + LOCKOUT_TIME e)
                             else au_locked_until_ts au)\<rparr>
                  else au"
  let ?d1 = "d\<lparr>AdminUsers := map ?f (AdminUsers d)\<rparr>"
  let ?u1 = "?u\<lparr>au_failed_login_attempts := au_failed_login_attempts ?u + 1,
               au_locked_until_ts := Some (lock_Date_now clk + LOCKOUT_TIME e)\<rparr>"
  have u: "login_user d username = Some ?u"
    using assms(1) by (rule login_user_Cons)
  then have step: "authenticateUser e flt clk d username password =
                     (Failure Invalid_credentials, ?d1)"
    using assms by (intro authenticateUser_wrong_password) simp_all
  have "login_user ?d1 username = map_option ?f (login_user d username)"
    by (rule login_user_update) simp_all
  with u assms(7) have u1: "login_user ?d1 username = Some ?u1"
    by simp
  have flags: "map au_is_locked (AdminUsers ?d1) = map au_is_locked (AdminUsers d)"
    by (simp add: comp_def cong: if_cong)
  have locked: "fst (authenticateUser e flt clk' ?d1 username password') =
      Failure (Account_locked
        \<lceil>real_of_int (lock_Date_now clk + LOCKOUT_TIME e - Date_now clk') / 60000\<rceil>)"
    if "new_Date clk' < lock_Date_now clk + LOCKOUT_TIME e" for clk' password'
    using authenticateUser_locked [OF assms(5) u1, of "lock_Date_now clk + LOCKOUT_TIME e"
        clk' e password'] that
    by (simp add: Math_ceil_div_ceiling)
  have clear: "isUserLocked fails now d0 user = Inr (False, d0)"
    if "\<not> au_is_locked user" for fails now d0 user
    using that by (simp add: isUserLocked_def)
  have "\<not> au_is_locked ?u1"
    using assms(8) by simp
  then have stored: "isUserLocked fails now ?d1 ?u1 = Inr (False, ?d1)" for fails now
    by (rule clear)
  show ?thesis
    unfolding step snd_conv
    using flags u1 locked stored clear by blast
qed

text \<open>
  Alice's flag is clear. Her fifth wrong password locks her until 905000; at 6000
  \<open>authenticateUser\<close> turns her right password away, and \<open>isUserLocked\<close> says false.
\<close>

theorem lock_flag_never_set_witness:
  "authenticateUser example_env no_faults (clock_at 5000) stale_db ''alice'' ''guess5'' =
     (Failure Invalid_credentials, locked_db) \<and>
   login_user locked_db ''alice'' =
     Some (alice\<lparr>au_failed_login_attempts := 5, au_locked_until_ts := Some 905000\<rparr>) \<and>
   fst (authenticateUser example_env no_faults (clock_at 6000) locked_db ''alice'' ''secret'') =
     Failure (Account_locked 15) \<and>
   isUserLocked False 6000 locked_db
     (alice\<lparr>au_failed_login_attempts := 5, au_locked_until_ts := Some 905000\<rparr>) =
     Inr (False, locked_db)"
proof -
  let ?w = "\<lparr>row_au = alice\<lparr>au_failed_login_attempts := 4, au_locked_until_ts := Some 500\<rparr>,
            row_r = Some Editor, row_p = Some news_create\<rparr>"
  have q: "login_query stale_db ''alice'' = ?w # tl (login_query stale_db ''alice'')"
    by code_simp
  have step: "authenticateUser example_env no_faults (clock_at 5000) stale_db ''alice''
                ''guess5'' = (Failure Invalid_credentials, locked_db)"
    by code_simp
  have next_login: "fst (authenticateUser example_env no_faults (clock_at 6000) locked_db
                      ''alice'' ''secret'') = Failure (Account_locked 15)"
    by code_simp
  have e: "MAX_LOGIN_ATTEMPTS example_env = 5" "LOCKOUT_TIME example_env = 900000"
    by (simp_all add: MAX_LOGIN_ATTEMPTS_def LOCKOUT_TIME_def example_env_def)
  have active: "au_is_active (row_au ?w)"
    and unlocked: "\<not> (case au_locked_until_ts (row_au ?w) of
                         None \<Rightarrow> False | Some l \<Rightarrow> new_Date (clock_at 5000) < l)"
    and wrong: "\<not> bcrypt_compare example_env ''guess5'' (au_password_hash (row_au ?w))"
    and store: "\<not> select_fails no_faults" "\<not> update_fails no_faults"
    and fifth: "MAX_LOGIN_ATTEMPTS example_env \<le> au_failed_login_attempts (row_au ?w) + 1"
    and flag: "\<not> au_is_locked (row_au ?w)"
    by (simp_all add: alice_def clock_at_def example_env_def plain_compare_def no_faults_def
          MAX_LOGIN_ATTEMPTS_def)
  note never = lock_flag_never_set [OF q active unlocked wrong store fifth flag, unfolded step]
  have "login_user locked_db ''alice'' =
          Some (alice\<lparr>au_failed_login_attempts := 5, au_locked_until_ts := Some 905000\<rparr>)"
    using never by (simp add: e clock_at_def)
  moreover have "isUserLocked False 6000 locked_db
          (alice\<lparr>au_failed_login_attempts := 5, au_locked_until_ts := Some 905000\<rparr>) =
          Inr (False, locked_db)"
    using never by (simp add: e clock_at_def)
  ultimately show ?thesis
    using step next_login by simp
qed

end
